theory Spec2Isabelle
  imports Main "HOL-Library.Word"
begin

section \<open>String columns of cudf: \<open>python/cudf/cudf/core/column/string.py\<close>\<close>

text \<open>
  The development follows the classes \<open>StringColumn\<close> and \<open>StringMethods\<close>. Python
  integers are \<open>int\<close>, the elements of the offsets child are 32-bit words read as
  two's complement (\<open>int32\<close>), the elements of the chars child are bytes (\<open>char\<close>),
  exceptions are values of \<open>py_error\<close> on the left of a sum.
\<close>

subsection \<open>Data model\<close>

datatype py_error =
    IndexError | TypeError | ValueError | KeyError | AttributeError
  | NotImplementedError | ParseFailure | ShapeMismatch

text \<open>
  A validity buffer: \<open>ptr\<close> is the identity of the device allocation, \<open>bits\<close> holds
  one bit per row, \<open>True\<close> for a valid row.
\<close>

record mask_buffer =
  ptr :: nat
  bits :: "bool list"

text \<open>
  A fixed-width column is a typed window \<open>(offset, size)\<close> over a device buffer, with
  an optional mask, as \<open>column.build_column(data=..., mask=..., size=..., offset=...)\<close>
  makes it.
\<close>

record 'a column =
  base_data :: "'a list"
  base_mask :: "mask_buffer option"
  col_size :: int
  col_offset :: int

type_synonym int32 = "32 word"

text \<open>
  The attributes of a \<open>StringColumn\<close> that the methods of the file read: \<open>mask\<close>,
  \<open>size\<close>, \<open>offset\<close> and \<open>base_children\<close>, a tuple of no or two columns
  \<open>(offsets, chars)\<close>.
\<close>

record string_column =
  sc_mask :: "mask_buffer option"
  sc_size :: int
  sc_offset :: int
  base_children :: "(int32 column \<times> char column) option"

subsection \<open>\<open>StringColumn.__init__\<close>\<close>

definition StringColumn_init ::
  "mask_buffer option \<Rightarrow> int option \<Rightarrow> int \<Rightarrow> (int32 column \<times> char column) option
     \<Rightarrow> string_column" where
  "StringColumn_init mask_arg size_arg offset_arg children_arg =
     (let size' =
        (case size_arg of
           Some s \<Rightarrow> s
         | None \<Rightarrow>
             (case children_arg of
                None \<Rightarrow> 0
              | Some (offsets_child, chars_child) \<Rightarrow>
                  if col_size offsets_child = 0 then 0
                  else col_size offsets_child - 1)
             - offset_arg)
      in \<lparr>sc_mask = mask_arg, sc_size = size', sc_offset = offset_arg,
          base_children = children_arg\<rparr>)"

subsection \<open>Child columns: construction, element access, subtraction\<close>

definition build_column ::
  "'a list \<Rightarrow> mask_buffer option \<Rightarrow> int \<Rightarrow> int \<Rightarrow> 'a column" where
  "build_column data mask_arg size_arg offset_arg =
     \<lparr>base_data = data, base_mask = mask_arg, col_size = size_arg, col_offset = offset_arg\<rparr>"

text \<open>
  Modelled from the spec: the elements a child column shows are its buffer ``windowed
  to'' \<open>[offset, offset + size)\<close>. \<open>column.py\<close> is not among the sources.
\<close>

definition data_view :: "'a column \<Rightarrow> 'a list" where
  "data_view c = take (nat (col_size c)) (drop (nat (col_offset c)) (base_data c))"

text \<open>
  Modelled from the spec: \<open>col[i]\<close> reads element \<open>i\<close> of the window; an index
  outside the window, or a window that leaves the buffer, raises \<open>IndexError\<close>.
\<close>

definition getitem :: "'a column \<Rightarrow> int \<Rightarrow> py_error + 'a" where
  "getitem c i =
     (if 0 \<le> i \<and> i < col_size c \<and> 0 \<le> col_offset c \<and> nat i < length (data_view c)
      then Inr (data_view c ! nat i) else Inl IndexError)"

text \<open>
  Modelled from the spec: \<open>binary_operator("sub", scalar)\<close> on an \<open>int32\<close> column is
  the ``vectorized subtract'': a fresh column of the same size and mask, each element
  of the window minus the scalar, in 32-bit arithmetic.
\<close>

definition binary_operator_sub :: "int32 column \<Rightarrow> int32 \<Rightarrow> int32 column" where
  "binary_operator_sub c v =
     \<lparr>base_data = map (\<lambda>x. x - v) (data_view c), base_mask = base_mask c,
      col_size = col_size c, col_offset = 0\<rparr>"

subsection \<open>\<open>StringColumn.children\<close>\<close>

text \<open>
  The property caches its result in \<open>_children\<close>; the model recomputes it, the column
  being immutable. The scalars read from the offsets column are used as Python integers
  for the size and the offset of the chars window.
\<close>

definition children :: "string_column \<Rightarrow> py_error + (int32 column \<times> char column) option" where
  "children c =
     (case base_children c of
        None \<Rightarrow> Inr None
      | Some (base_offsets, base_chars) \<Rightarrow>
          if sc_offset c = 0 \<and> col_size base_offsets = sc_size c + 1
          then Inr (Some (base_offsets, base_chars))
          else
            let chars_column = base_chars;
                offsets_column = base_offsets;
                offsets_column =
                  build_column (base_data offsets_column) (base_mask offsets_column)
                    (sc_size c + 1) (sc_offset c)
            in case getitem offsets_column 0 of
                 Inl e \<Rightarrow> Inl e
               | Inr chars_offset \<Rightarrow>
                   let offsets_column = binary_operator_sub offsets_column chars_offset
                   in case getitem offsets_column (sc_size c) of
                        Inl e \<Rightarrow> Inl e
                      | Inr chars_size \<Rightarrow>
                          Inr (Some (offsets_column,
                                build_column (base_data chars_column) (base_mask chars_column)
                                  (sint chars_size) (sint chars_offset))))"

subsection \<open>Well-formed columns and the content of a row\<close>

text \<open>
  A base child is unsliced and non-null: its window is its whole buffer and it has no
  mask.
\<close>

definition unsliced :: "'a column \<Rightarrow> bool" where
  "unsliced col =
     (col_offset col = 0 \<and> col_size col = int (length (base_data col)) \<and> base_mask col = None)"

text \<open>
  The invariants of section 3 of the specification: the window \<open>(offset, size)\<close> lies
  in the base rows, the base offsets are non-negative, non-decreasing and delimit
  byte ranges of the data buffer, a column without children has no rows, and a mask
  has a bit for every row.
\<close>

definition valid_string_column :: "string_column \<Rightarrow> bool" where
  "valid_string_column c =
     (0 \<le> sc_size c \<and> 0 \<le> sc_offset c
      \<and> (case sc_mask c of None \<Rightarrow> True | Some m \<Rightarrow> nat (sc_size c) \<le> length (bits m))
      \<and> (case base_children c of
            None \<Rightarrow> sc_size c = 0
          | Some (base_offsets, base_chars) \<Rightarrow>
              unsliced base_offsets \<and> unsliced base_chars
              \<and> sc_offset c + sc_size c + 1 \<le> col_size base_offsets
              \<and> sorted (map sint (base_data base_offsets))
              \<and> list_all (\<lambda>x. 0 \<le> sint x \<and> sint x \<le> int (length (base_data base_chars)))
                    (base_data base_offsets)))"

text \<open>
  The base children are canonical when the data buffer is the concatenation of the
  rows: the first base offset is \<open>0\<close> and the last one is the number of bytes in the
  data buffer.
\<close>

definition canonical_base :: "int32 column \<times> char column \<Rightarrow> bool" where
  "canonical_base ch =
     (base_data (fst ch) \<noteq> [] \<and> hd (base_data (fst ch)) = 0
      \<and> sint (last (base_data (fst ch))) = int (length (base_data (snd ch))))"

text \<open>
  The content of row \<open>r\<close> of a pair \<open>(offsets, data)\<close> is
  \<open>data[offsets[r] : offsets[r + 1]]\<close>, read through the windows of both columns.
\<close>

definition row_content :: "int32 column \<times> char column \<Rightarrow> int \<Rightarrow> string" where
  "row_content ch r =
     (let offs = data_view (fst ch)
      in if 0 \<le> r \<and> nat r + 1 < length offs
         then let s = sint (offs ! nat r); e = sint (offs ! (nat r + 1))
              in take (nat (e - s)) (drop (nat s) (data_view (snd ch)))
         else [])"

text \<open>
  The two columns that the slow path of \<open>children\<close> builds, written out for a
  column whose base offsets buffer is \<open>B\<close> and whose base data buffer is \<open>D\<close>.
\<close>

definition shifted_offsets :: "string_column \<Rightarrow> int32 list \<Rightarrow> int32 column" where
  "shifted_offsets c B =
     \<lparr>base_data = map (\<lambda>x. x - B ! nat (sc_offset c))
                    (take (nat (sc_size c) + 1) (drop (nat (sc_offset c)) B)),
      base_mask = None, col_size = sc_size c + 1, col_offset = 0\<rparr>"

definition chars_window :: "string_column \<Rightarrow> int32 list \<Rightarrow> string \<Rightarrow> char column" where
  "chars_window c B D =
     \<lparr>base_data = D, base_mask = None,
      col_size = sint (B ! (nat (sc_offset c) + nat (sc_size c)) - B ! nat (sc_offset c)),
      col_offset = sint (B ! nat (sc_offset c))\<rparr>"

subsection \<open>Masks, null counts and \<open>__len__\<close>\<close>

text \<open>
  Modelled from the spec: the validity bit of logical row \<open>r\<close> is authoritative; a column
  without a mask has no nulls; \<open>null_count\<close> counts the rows of the window whose bit is
  unset; \<open>has_nulls\<close> and \<open>nullable\<close> are the properties of \<open>column.py\<close>, which is not
  among the sources.
\<close>

definition row_valid :: "mask_buffer option \<Rightarrow> nat \<Rightarrow> bool" where
  "row_valid m r = (case m of None \<Rightarrow> True | Some b \<Rightarrow> r < length (bits b) \<and> bits b ! r)"

definition null_count :: "string_column \<Rightarrow> int" where
  "null_count c =
     int (length (filter (\<lambda>r. \<not> row_valid (sc_mask c) r) [0..<nat (sc_size c)]))"

definition has_nulls :: "string_column \<Rightarrow> bool" where
  "has_nulls c = (null_count c \<noteq> 0)"

definition nullable :: "string_column \<Rightarrow> bool" where
  "nullable c = (sc_mask c \<noteq> None)"

text \<open>
  \<open>StringColumn.__len__\<close> returns \<open>self.size\<close>; Python's \<open>len\<close> raises \<open>ValueError\<close> on
  a negative result.
\<close>

definition len_sc :: "string_column \<Rightarrow> py_error + int" where
  "len_sc c = (if sc_size c < 0 then Inl ValueError else Inr (sc_size c))"

subsection \<open>\<open>StringColumn.nvstrings\<close>\<close>

text \<open>
  Modelled from the spec: the strings object that \<open>nvstrings.from_offsets\<close> builds from
  the chars and offsets children, the row count and the mask is the sequence of nullable
  strings of the column: row \<open>r\<close> is null when its validity bit is unset, and otherwise
  holds the bytes between offsets \<open>r\<close> and \<open>r + 1\<close>.
\<close>

type_synonym nvstrings_obj = "string option list"

definition from_offsets ::
  "int32 column \<times> char column \<Rightarrow> int \<Rightarrow> mask_buffer option \<Rightarrow> nvstrings_obj" where
  "from_offsets ch n mask_ptr =
     map (\<lambda>r. if row_valid mask_ptr r then Some (row_content ch (int r)) else None)
       [0..<nat n]"

definition nvstrings :: "string_column \<Rightarrow> py_error + nvstrings_obj" where
  "nvstrings c =
     (let mask_ptr = (if nullable c then sc_mask c else None)
      in if sc_size c = 0 then Inr []
         else case children c of
                Inl e \<Rightarrow> Inl e
              | Inr None \<Rightarrow> Inl IndexError
              | Inr (Some ch) \<Rightarrow> Inr (from_offsets ch (sc_size c) mask_ptr))"

subsection \<open>\<open>StringMethods\<close> and \<open>_return_or_inplace\<close>\<close>

datatype parent =
  NoParent | SeriesParent | IndexParent | DataFrameParent | MultiIndexParent | OtherParent

record string_methods =
  sm_column :: string_column
  sm_parent :: parent

definition str_accessor :: "string_column \<Rightarrow> parent \<Rightarrow> string_methods" where
  "str_accessor c p = \<lparr>sm_column = c, sm_parent = p\<rparr>"

text \<open>
  The keyword arguments that \<open>_return_or_inplace\<close> reads; \<open>None\<close> is an absent key.
\<close>

record kwargs =
  kw_inplace :: "bool option"
  kw_expand :: "bool option"

definition no_kwargs :: kwargs where
  "no_kwargs = \<lparr>kw_inplace = None, kw_expand = None\<rparr>"

text \<open>
  What the owner does with the new column: it is rebound in place (the call returns
  \<open>None\<close>), expanded into a frame, wrapped in a Series or an Index, or returned as it
  is. The constructors of the owners are not among the sources, so a result records
  which one was applied to which column. A call on a parent that is \<open>None\<close> raises
  \<open>AttributeError\<close> where the code reads an attribute of the parent.
\<close>

datatype 'a returned =
    MimicInplace 'a bool
  | ExpandDim 'a
  | SeriesOf 'a
  | IndexOf 'a
  | NewCol 'a

definition return_or_inplace :: "parent \<Rightarrow> kwargs \<Rightarrow> 'a \<Rightarrow> py_error + 'a returned" where
  "return_or_inplace p kw new_col =
     (let inplace = (case kw_inplace kw of None \<Rightarrow> False | Some b \<Rightarrow> b)
      in if inplace
         then (if p = NoParent then Inl AttributeError else Inr (MimicInplace new_col True))
         else
           let expand = (case kw_expand kw of None \<Rightarrow> False | Some b \<Rightarrow> b)
           in if expand \<or> p = DataFrameParent \<or> p = MultiIndexParent
              then (if p = NoParent then Inl AttributeError else Inr (ExpandDim new_col))
              else if p = SeriesParent then Inr (SeriesOf new_col)
              else if p = IndexParent then Inr (IndexOf new_col)
              else if p = NoParent then Inr (NewCol new_col)
              else Inr (MimicInplace new_col False))"

subsection \<open>Device work\<close>

datatype time_unit = Seconds | Milliseconds | Microseconds | Nanoseconds | Days

datatype np_dtype =
    Int8 | Int16 | Int32 | Int64 | UInt8 | Float32 | Float64 | Bool | Object
  | Datetime64 time_unit

text \<open>
  The device work of a method is recorded as a trace: the allocation of an output
  array by \<open>rmm.device_array\<close> and the launch of a kernel.
\<close>

datatype device_event =
    DeviceArray int np_dtype
  | KernelLen
  | KernelContains string bool

text \<open>
  Modelled from the spec: a column built from a buffer alone has the buffer's element
  count as its size and offset \<open>0\<close>.
\<close>

definition build_column_of_buffer :: "'a list \<Rightarrow> mask_buffer option \<Rightarrow> 'a column" where
  "build_column_of_buffer data mask_arg = build_column data mask_arg (int (length data)) 0"

subsection \<open>\<open>StringMethods.len\<close>\<close>

text \<open>
  Modelled from the spec: the length kernel writes, for each non-null row, the byte
  length of the row; a null row carries a placeholder, here \<open>0\<close>.
\<close>

definition nvs_len :: "string option \<Rightarrow> int32" where
  "nvs_len row = (case row of None \<Rightarrow> 0 | Some s \<Rightarrow> word_of_nat (length s))"

definition str_len ::
  "string_methods \<Rightarrow> kwargs \<Rightarrow> device_event list
     \<Rightarrow> (py_error + int32 column returned) \<times> device_event list" where
  "str_len sm kw dev =
     (case len_sc (sm_column sm) of
        Inl e \<Rightarrow> (Inl e, dev)
      | Inr n \<Rightarrow>
          let dev = dev @ [DeviceArray n Int32]
          in case nvstrings (sm_column sm) of
               Inl e \<Rightarrow> (Inl e, dev)
             | Inr rows \<Rightarrow>
                 let out_dev_arr = map nvs_len rows;
                     dev = dev @ [KernelLen];
                     mask = (if has_nulls (sm_column sm) then sc_mask (sm_column sm) else None)
                 in (return_or_inplace (sm_parent sm) kw
                       (build_column_of_buffer out_dev_arr mask), dev))"

subsection \<open>\<open>StringMethods.contains\<close>\<close>

text \<open>
  The value of the \<open>na\<close> argument: the object \<open>np.nan\<close>, which is the default, or
  anything else.
\<close>

datatype na_arg = NpNan | NaNone | NaBool bool | NaOther

text \<open>
  The pattern matcher is the external regex engine: \<open>matcher pat regex s\<close> tells whether
  the pattern \<open>pat\<close>, a regular expression when \<open>regex\<close> holds and a literal otherwise, is
  found in the string \<open>s\<close>. A null row carries the placeholder \<open>False\<close>.
\<close>

definition nvs_contains ::
  "(string \<Rightarrow> bool \<Rightarrow> string \<Rightarrow> bool) \<Rightarrow> string \<Rightarrow> bool \<Rightarrow> string option \<Rightarrow> bool" where
  "nvs_contains matcher pat regex row =
     (case row of None \<Rightarrow> False | Some s \<Rightarrow> matcher pat regex s)"

definition str_contains ::
  "(string \<Rightarrow> bool \<Rightarrow> string \<Rightarrow> bool) \<Rightarrow> string_methods \<Rightarrow> string \<Rightarrow> bool \<Rightarrow> int
     \<Rightarrow> na_arg \<Rightarrow> bool \<Rightarrow> kwargs \<Rightarrow> device_event list
     \<Rightarrow> (py_error + bool column returned) \<times> device_event list" where
  "str_contains matcher sm pat case_arg flags na regex kw dev =
     (if case_arg \<noteq> True then (Inl NotImplementedError, dev)
      else if flags \<noteq> 0 then (Inl NotImplementedError, dev)
      else if na \<noteq> NpNan then (Inl NotImplementedError, dev)
      else
        case len_sc (sm_column sm) of
          Inl e \<Rightarrow> (Inl e, dev)
        | Inr n \<Rightarrow>
            let dev = dev @ [DeviceArray n Bool]
            in case nvstrings (sm_column sm) of
                 Inl e \<Rightarrow> (Inl e, dev)
               | Inr rows \<Rightarrow>
                   let out_dev_arr = map (nvs_contains matcher pat regex) rows;
                       dev = dev @ [KernelContains pat regex];
                       mask = (if has_nulls (sm_column sm) then sc_mask (sm_column sm)
                               else None)
                   in (return_or_inplace (sm_parent sm) kw
                         (build_column_of_buffer out_dev_arr mask), dev))"

subsection \<open>\<open>StringMethods.replace\<close>\<close>






subsection \<open>\<open>StringMethods.split\<close>\<close>

text \<open>
  The kernel \<open>nvstrings.split(delimiter=pat, n=n)\<close> is a parameter of the method. The
  parameter \<open>expand\<close> of the method is entered into the keyword arguments when they do
  not hold one.
\<close>

definition str_split ::
  "(string option \<Rightarrow> int \<Rightarrow> nvstrings_obj \<Rightarrow> nvstrings_obj list)
     \<Rightarrow> string_methods \<Rightarrow> string option \<Rightarrow> int \<Rightarrow> bool \<Rightarrow> kwargs
     \<Rightarrow> py_error + nvstrings_obj list returned" where
  "str_split kern sm pat n expand kw =
     (if expand \<noteq> True then Inl NotImplementedError
      else
        let n = (if n = 0 then - 1 else n);
            kw = (case kw_expand kw of
                    None \<Rightarrow> kw\<lparr>kw_expand := Some expand\<rparr>
                  | Some b \<Rightarrow> kw)
        in case nvstrings (sm_column sm) of
             Inl e \<Rightarrow> Inl e
           | Inr rows \<Rightarrow> return_or_inplace (sm_parent sm) kw (kern pat n rows))"

text \<open>
  Modelled from the spec: the split kernel. An absent or empty delimiter stands for the
  single space, taken literally. A row is cut at the delimiter from the left, each cut
  using up one of the \<open>n\<close> allowed; the table has one column per split position, as
  many as the longest row has tokens; short rows are padded with nulls and a null row
  is null in every column.
\<close>

fun split_tokens :: "string \<Rightarrow> int \<Rightarrow> string \<Rightarrow> string \<Rightarrow> string list" where
  "split_tokens d n acc [] = [rev acc]"
| "split_tokens d n acc (c # cs) =
     (if n \<noteq> 0 \<and> d \<noteq> [] \<and> take (length d) (c # cs) = d
      then rev acc # split_tokens d (n - 1) [] (drop (length d) (c # cs))
      else split_tokens d n (c # acc) cs)"

definition split_delimiter :: "string option \<Rightarrow> string" where
  "split_delimiter delimiter =
     (case delimiter of None \<Rightarrow> '' '' | Some d \<Rightarrow> if d = [] then '' '' else d)"

definition nvs_split :: "string option \<Rightarrow> int \<Rightarrow> nvstrings_obj \<Rightarrow> nvstrings_obj list" where
  "nvs_split delimiter n rows =
     (let d = split_delimiter delimiter;
          tokens = map (map_option (split_tokens d n [])) rows;
          width = foldr max (map (\<lambda>t. case t of None \<Rightarrow> 0 | Some ts \<Rightarrow> length ts) tokens) 0
      in map (\<lambda>j. map (\<lambda>t. case t of
                              None \<Rightarrow> None
                            | Some ts \<Rightarrow> if j < length ts then Some (ts ! j) else None)
                      tokens)
           [0..<width])"

subsection \<open>\<open>StringMethods.cat\<close> and \<open>StringColumn.binary_operator\<close>\<close>

text \<open>
  The \<open>others\<close> of \<open>cat\<close> that the model admits: a string column, a Series or an Index
  of strings (given by its column), or a \<open>StringMethods\<close> accessor, which is refused.
  The join of a single column (no \<open>others\<close>) and list-like \<open>others\<close> are not called from
  this file and are left out. After \<open>_return_or_inplace\<close> the method takes \<open>len(out)\<close>:
  an in-place update has returned \<open>None\<close>, whose length raises \<open>TypeError\<close>; with
  \<open>others\<close> present the result is returned as it is.
\<close>

datatype cat_others =
    ColumnOthers string_column
  | SeriesOthers string_column
  | IndexOthers string_column
  | AccessorOthers

text \<open>
  Modelled from the spec: the concatenation kernel with \<open>others\<close> present. Row \<open>i\<close> is
  \<open>self[i] + sep + others[i]\<close>; without \<open>na_rep\<close> a row with a null operand is null,
  with \<open>na_rep\<close> the nulls are replaced first; operands of different row counts fail
  with \<open>ShapeMismatch\<close>.
\<close>

definition cat_row ::
  "string option \<Rightarrow> string option \<Rightarrow> string option \<Rightarrow> string option \<Rightarrow> string option" where
  "cat_row sep na_rep a b =
     (let s = (case sep of None \<Rightarrow> [] | Some x \<Rightarrow> x)
      in case na_rep of
           None \<Rightarrow> (case a of
                      None \<Rightarrow> None
                    | Some x \<Rightarrow> (case b of None \<Rightarrow> None | Some y \<Rightarrow> Some (x @ s @ y)))
         | Some rep \<Rightarrow>
             Some ((case a of None \<Rightarrow> rep | Some x \<Rightarrow> x) @ s
                   @ (case b of None \<Rightarrow> rep | Some y \<Rightarrow> y)))"

definition nvs_cat ::
  "nvstrings_obj \<Rightarrow> nvstrings_obj \<Rightarrow> string option \<Rightarrow> string option
     \<Rightarrow> py_error + nvstrings_obj" where
  "nvs_cat rows others sep na_rep =
     (if length rows \<noteq> length others then Inl ShapeMismatch
      else Inr (map (\<lambda>(a, b). cat_row sep na_rep a b) (zip rows others)))"

definition str_cat ::
  "string_methods \<Rightarrow> cat_others \<Rightarrow> string option \<Rightarrow> string option \<Rightarrow> kwargs
     \<Rightarrow> py_error + nvstrings_obj returned" where
  "str_cat sm others sep na_rep kw =
     (case (case others of
              ColumnOthers oc \<Rightarrow> nvstrings oc
            | SeriesOthers oc \<Rightarrow> nvstrings oc
            | IndexOthers oc \<Rightarrow> nvstrings oc
            | AccessorOthers \<Rightarrow> Inl ValueError) of
        Inl e \<Rightarrow> Inl e
      | Inr others_rows \<Rightarrow>
          (case nvstrings (sm_column sm) of
             Inl e \<Rightarrow> Inl e
           | Inr rows \<Rightarrow>
               (case nvs_cat rows others_rows sep na_rep of
                  Inl e \<Rightarrow> Inl e
                | Inr data \<Rightarrow>
                    (case return_or_inplace (sm_parent sm) kw data of
                       Inl e \<Rightarrow> Inl e
                     | Inr (MimicInplace col True) \<Rightarrow> Inl TypeError
                     | Inr out \<Rightarrow> Inr out))))"

text \<open>
  An operand of \<open>binary_operator\<close> is a string column or any other object; the other
  objects meant here (numbers, numerical columns) have no \<open>str\<close> method, so calling
  it raises \<open>AttributeError\<close>.
\<close>

datatype operand = StringColumnArg string_column | OtherArg

definition operand_str :: "operand \<Rightarrow> py_error + string_methods" where
  "operand_str x =
     (case x of StringColumnArg c \<Rightarrow> Inr (str_accessor c NoParent) | OtherArg \<Rightarrow> Inl AttributeError)"

definition is_string_column :: "operand \<Rightarrow> bool" where
  "is_string_column x = (case x of StringColumnArg c \<Rightarrow> True | OtherArg \<Rightarrow> False)"

definition binary_operator ::
  "string_column \<Rightarrow> string \<Rightarrow> operand \<Rightarrow> bool \<Rightarrow> py_error + nvstrings_obj returned" where
  "binary_operator self_col binop rhs_arg reflect =
     (let lhs = StringColumnArg self_col;
          rhs = rhs_arg;
          (lhs, rhs) = (if reflect then (rhs, lhs) else (lhs, rhs))
      in if is_string_column rhs \<and> binop = ''add''
         then (case operand_str lhs of
                 Inl e \<Rightarrow> Inl e
               | Inr sm \<Rightarrow>
                   (case rhs of
                      StringColumnArg r \<Rightarrow> str_cat sm (ColumnOthers r) None None no_kwargs
                    | OtherArg \<Rightarrow> Inl TypeError))
         else Inl TypeError)"

subsection \<open>\<open>StringColumn.__contains__\<close>\<close>

text \<open>
  Modelled from the spec: \<open>True in col\<close> on a boolean column holds when some non-null
  row of the column is \<open>True\<close>.
\<close>

definition column_contains :: "bool column \<Rightarrow> bool \<Rightarrow> bool" where
  "column_contains col v =
     list_ex (\<lambda>r. row_valid (base_mask col) r \<and> data_view col ! r = v)
       [0..<length (data_view col)]"

definition sc_contains ::
  "(string \<Rightarrow> bool \<Rightarrow> string \<Rightarrow> bool) \<Rightarrow> string_column \<Rightarrow> string \<Rightarrow> py_error + bool" where
  "sc_contains matcher c item =
     (case fst (str_contains matcher (str_accessor c NoParent) (''^'' @ item @ ''$'')
                  True 0 NpNan True no_kwargs []) of
        Inl e \<Rightarrow> Inl e
      | Inr (NewCol out) \<Rightarrow> Inr (column_contains out True)
      | Inr _ \<Rightarrow> Inl TypeError)"

text \<open>
  A matcher for the fragment of regular expressions that the examples use: the anchors
  \<open>^\<close> and \<open>$\<close>, the wildcard \<open>.\<close> and literal characters; a literal pattern is found
  when it occurs at some position. It stands in for the external regex engine.
\<close>

fun match_here :: "string \<Rightarrow> string \<Rightarrow> bool" where
  "match_here [] s = True"
| "match_here (p # ps) s =
     (if p = CHR ''$'' \<and> ps = [] then s = []
      else case s of
             [] \<Rightarrow> False
           | c # cs \<Rightarrow> (p = CHR ''.'' \<or> p = c) \<and> match_here ps cs)"

fun match_from :: "string \<Rightarrow> string \<Rightarrow> bool" where
  "match_from ps [] = match_here ps []"
| "match_from ps (c # cs) = (match_here ps (c # cs) \<or> match_from ps cs)"

definition basic_matcher :: "string \<Rightarrow> bool \<Rightarrow> string \<Rightarrow> bool" where
  "basic_matcher pat regex s =
     (if regex
      then (case pat of
              [] \<Rightarrow> True
            | p # ps \<Rightarrow> if p = CHR ''^'' then match_here ps s else match_from pat s)
      else list_ex (\<lambda>i. take (length pat) (drop i s) = pat) [0..<Suc (length s)])"

subsection \<open>\<open>StringColumn.as_numerical_column\<close>\<close>

datatype cast_fn = Stoi8 | Stoi16 | Stoi | Stol | Stof | Stod | ToBooleans | Timestamp2int

definition str_to_numeric_typecast_functions :: "np_dtype \<Rightarrow> cast_fn option" where
  "str_to_numeric_typecast_functions d =
     (case d of
        Int8 \<Rightarrow> Some Stoi8
      | Int16 \<Rightarrow> Some Stoi16
      | Int32 \<Rightarrow> Some Stoi
      | Int64 \<Rightarrow> Some Stol
      | Float32 \<Rightarrow> Some Stof
      | Float64 \<Rightarrow> Some Stod
      | Bool \<Rightarrow> Some ToBooleans
      | Datetime64 u \<Rightarrow> (if u = Days then None else Some Timestamp2int)
      | _ \<Rightarrow> None)"

definition is_datetime64 :: "np_dtype \<Rightarrow> bool" where
  "is_datetime64 d = (case d of Datetime64 u \<Rightarrow> True | _ \<Rightarrow> False)"

text \<open>
  The keyword \<open>format\<close>: absent, or given with a value, which is \<open>None\<close> when the guess
  of the format failed.
\<close>

datatype format_kwarg = NoFormat | Format "string option"

text \<open>
  Modelled from the spec: \<open>self[self.notna()][0]\<close> is the first non-null row of the
  column; taking it from a column without a non-null row raises \<open>IndexError\<close>.
\<close>

definition first_notna :: "string_column \<Rightarrow> py_error + string" where
  "first_notna c =
     (case nvstrings c of
        Inl e \<Rightarrow> Inl e
      | Inr rows \<Rightarrow>
          (case List.map_filter (\<lambda>r. r) rows of [] \<Rightarrow> Inl IndexError | s # rest \<Rightarrow> Inr s))"

text \<open>
  The guess of the format (\<open>_guess_datetime_format\<close> of pandas, \<open>None\<close> when it cannot
  guess) and the cast functions of the table are parameters.
\<close>

definition as_numerical_column ::
  "(string \<Rightarrow> string option)
     \<Rightarrow> (cast_fn \<Rightarrow> string_column \<Rightarrow> format_kwarg \<Rightarrow> np_dtype \<Rightarrow> py_error + 'r)
     \<Rightarrow> string_column \<Rightarrow> np_dtype \<Rightarrow> format_kwarg \<Rightarrow> py_error + 'r" where
  "as_numerical_column guess_datetime_format cast c dtype format_kw =
     (case (if is_datetime64 dtype \<and> format_kw = NoFormat
            then (case len_sc c of
                    Inl e \<Rightarrow> Inl e
                  | Inr n \<Rightarrow>
                      if 0 < n
                      then (case first_notna c of
                              Inl e \<Rightarrow> Inl e
                            | Inr s \<Rightarrow> Inr (Format (guess_datetime_format s)))
                      else Inr format_kw)
            else Inr format_kw) of
        Inl e \<Rightarrow> Inl e
      | Inr kw \<Rightarrow>
          (case str_to_numeric_typecast_functions dtype of
             None \<Rightarrow> Inl KeyError
           | Some f \<Rightarrow> cast f c kw dtype))"

text \<open>
  Modelled from the spec: the cast of strings to timestamps parses every non-null row
  with the one format it is given; a row that does not parse, or a format that could
  not be inferred, fails the whole cast with \<open>ParseFailure\<close>; a null row stays null.
  The parser of one row is a parameter. A column without rows casts to one without
  rows.
\<close>

definition timestamp2int ::
  "(np_dtype \<Rightarrow> string \<Rightarrow> string \<Rightarrow> int option) \<Rightarrow> string_column \<Rightarrow> format_kwarg \<Rightarrow> np_dtype
     \<Rightarrow> py_error + int option list" where
  "timestamp2int parse c format_kw dtype =
     (case nvstrings c of
        Inl e \<Rightarrow> Inl e
      | Inr rows \<Rightarrow>
          if rows = [] then Inr []
          else
            (case format_kw of
               Format (Some f) \<Rightarrow>
                 if list_all (\<lambda>r. case r of None \<Rightarrow> True | Some s \<Rightarrow> parse dtype f s \<noteq> None) rows
                 then Inr (map (\<lambda>r. case r of None \<Rightarrow> None | Some s \<Rightarrow> parse dtype f s) rows)
                 else Inl ParseFailure
             | _ \<Rightarrow> Inl ParseFailure))"

definition str_cast ::
  "(cast_fn \<Rightarrow> string_column \<Rightarrow> np_dtype \<Rightarrow> py_error + int option list)
     \<Rightarrow> (np_dtype \<Rightarrow> string \<Rightarrow> string \<Rightarrow> int option)
     \<Rightarrow> cast_fn \<Rightarrow> string_column \<Rightarrow> format_kwarg \<Rightarrow> np_dtype \<Rightarrow> py_error + int option list" where
  "str_cast other parse f c format_kw dtype =
     (case f of
        Timestamp2int \<Rightarrow> timestamp2int parse c format_kw dtype
      | _ \<Rightarrow> other f c dtype)"

subsection \<open>\<open>StringColumn.serialize\<close> and \<open>StringColumn.deserialize\<close>\<close>

text \<open>
  A frame is a raw device buffer; the model keeps it with the type of its elements.
  \<open>NoneFrame\<close> is the Python \<open>None\<close>. The pickled class of a header is the name of the
  class.
\<close>

datatype frame =
    Int32Frame "int32 list"
  | Int8Frame "char list"
  | MaskFrame mask_buffer
  | NoneFrame

datatype column_type = StringColumnType | NumericalColumnType

record sub_header =
  sh_type :: column_type
  sh_dtype :: np_dtype
  sh_frame_count :: nat

record header =
  h_null_count :: int
  h_type :: column_type
  h_subheaders :: "sub_header list"
  h_frame_count :: nat

text \<open>
  Modelled from the spec: a fixed-width child serializes into a header and the raw
  buffer of its elements, followed by its validity buffer when it has one, and is
  rebuilt from its header and that buffer. \<open>column.py\<close> is not among the sources. A
  buffer whose elements are not of the type the header names is outside the model
  (\<open>TypeError\<close>).
\<close>

definition column_serialize ::
  "('a list \<Rightarrow> frame) \<Rightarrow> np_dtype \<Rightarrow> 'a column \<Rightarrow> sub_header \<times> frame list" where
  "column_serialize wrap dt col =
     (let frames = [wrap (data_view col)]
                   @ (case base_mask col of None \<Rightarrow> [] | Some m \<Rightarrow> [MaskFrame m])
      in (\<lparr>sh_type = NumericalColumnType, sh_dtype = dt, sh_frame_count = length frames\<rparr>,
          frames))"

datatype any_column = Int32Column "int32 column" | Int8Column "char column"

definition column_deserialize :: "sub_header \<Rightarrow> frame list \<Rightarrow> py_error + any_column" where
  "column_deserialize h frames =
     (case frames of
        [] \<Rightarrow> Inl IndexError
      | b # rest \<Rightarrow>
          if sh_type h \<noteq> NumericalColumnType then Inl TypeError
          else
            (case b of
               Int32Frame xs \<Rightarrow>
                 if sh_dtype h = Int32 then Inr (Int32Column (build_column_of_buffer xs None))
                 else Inl TypeError
             | Int8Frame xs \<Rightarrow>
                 if sh_dtype h = Int8 then Inr (Int8Column (build_column_of_buffer xs None))
                 else Inl TypeError
             | _ \<Rightarrow> Inl TypeError))"

definition serialize :: "string_column \<Rightarrow> py_error + header \<times> frame list" where
  "serialize c =
     (case children c of
        Inl e \<Rightarrow> Inl e
      | Inr ch \<Rightarrow>
          let subs = (case ch of
                        None \<Rightarrow> []
                      | Some (offs, chars) \<Rightarrow>
                          [column_serialize Int32Frame Int32 offs,
                           column_serialize Int8Frame Int8 chars]);
              sub_headers = map fst subs;
              frames = concat (map snd subs);
              frames = (if 0 < null_count c
                        then frames @ [case sc_mask c of None \<Rightarrow> NoneFrame | Some m \<Rightarrow> MaskFrame m]
                        else frames)
          in Inr (\<lparr>h_null_count = null_count c, h_type = StringColumnType,
                   h_subheaders = sub_headers, h_frame_count = length frames\<rparr>, frames))"

fun collect :: "(py_error + 'a) list \<Rightarrow> py_error + 'a list" where
  "collect [] = Inr []"
| "collect (Inl e # rs) = Inl e"
| "collect (Inr x # rs) = (case collect rs of Inl e \<Rightarrow> Inl e | Inr xs \<Rightarrow> Inr (x # xs))"

text \<open>
  \<open>column.build_column(data=None, dtype="str", mask=..., children=...)\<close> constructs a
  \<open>StringColumn\<close> with the default size and offset. A buffer that is not a validity
  buffer in the place of the mask, and a tuple of children that is not empty or
  \<open>(offsets, chars)\<close>, are outside the model (\<open>TypeError\<close>).
\<close>

definition build_column_str :: "frame option \<Rightarrow> any_column list \<Rightarrow> py_error + string_column" where
  "build_column_str nbuf children_arg =
     (case (case nbuf of
              None \<Rightarrow> Inr None
            | Some (MaskFrame m) \<Rightarrow> Inr (Some m)
            | Some _ \<Rightarrow> Inl TypeError) of
        Inl e \<Rightarrow> Inl e
      | Inr mask_arg \<Rightarrow>
          (case children_arg of
             [] \<Rightarrow> Inr (StringColumn_init mask_arg None 0 None)
           | [Int32Column offs, Int8Column chars] \<Rightarrow>
               Inr (StringColumn_init mask_arg None 0 (Some (offs, chars)))
           | _ \<Rightarrow> Inl TypeError))"

definition deserialize :: "header \<Rightarrow> frame list \<Rightarrow> py_error + string_column" where
  "deserialize hdr frames =
     (let buffers = frames
      in case (if 0 < h_null_count hdr
               then (if 2 < length buffers then Inr (Some (buffers ! 2)) else Inl IndexError)
               else Inr None) of
           Inl e \<Rightarrow> Inl e
         | Inr nbuf \<Rightarrow>
             (case collect (map (\<lambda>(h, b). column_deserialize h [b])
                              (zip (h_subheaders hdr) (take 2 buffers))) of
                Inl e \<Rightarrow> Inl e
              | Inr children_list \<Rightarrow> build_column_str nbuf children_list))"

text \<open>
  The column that \<open>deserialize\<close> builds from the frames of a column \<open>c\<close> whose derived
  children are \<open>ch\<close>, written out.
\<close>

definition restored :: "string_column \<Rightarrow> int32 column \<times> char column \<Rightarrow> string_column" where
  "restored c ch =
     StringColumn_init (if 0 < null_count c then sc_mask c else None) None 0
       (Some (build_column_of_buffer (data_view (fst ch)) None,
              build_column_of_buffer (data_view (snd ch)) None))"

subsection \<open>Example columns\<close>

definition ex_slice :: string_column where
  "ex_slice =
     \<lparr>sc_mask = None, sc_size = 1, sc_offset = 1,
      base_children = Some (\<lparr>base_data = [0, 1, 3], base_mask = None, col_size = 3, col_offset = 0\<rparr>,
                            \<lparr>base_data = ''xab'', base_mask = None, col_size = 3, col_offset = 0\<rparr>)\<rparr>"

definition ex_nulls :: string_column where
  "ex_nulls =
     \<lparr>sc_mask = Some \<lparr>ptr = 7, bits = [True, False]\<rparr>, sc_size = 2, sc_offset = 0,
      base_children = Some (\<lparr>base_data = [0, 2, 2], base_mask = None, col_size = 3, col_offset = 0\<rparr>,
                            \<lparr>base_data = ''hi'', base_mask = None, col_size = 2, col_offset = 0\<rparr>)\<rparr>"

definition ex_aaaa :: string_column where
  "ex_aaaa =
     \<lparr>sc_mask = None, sc_size = 1, sc_offset = 0,
      base_children = Some (\<lparr>base_data = [0, 4], base_mask = None, col_size = 2, col_offset = 0\<rparr>,
                            \<lparr>base_data = ''aaaa'', base_mask = None, col_size = 4, col_offset = 0\<rparr>)\<rparr>"

definition ex_a_b :: string_column where
  "ex_a_b =
     \<lparr>sc_mask = None, sc_size = 1, sc_offset = 0,
      base_children = Some (\<lparr>base_data = [0, 3], base_mask = None, col_size = 2, col_offset = 0\<rparr>,
                            \<lparr>base_data = ''a b'', base_mask = None, col_size = 3, col_offset = 0\<rparr>)\<rparr>"

definition ex_whole :: string_column where
  "ex_whole =
     \<lparr>sc_mask = None, sc_size = 2, sc_offset = 0,
      base_children = Some (\<lparr>base_data = [0, 1, 3], base_mask = None, col_size = 3, col_offset = 0\<rparr>,
                            \<lparr>base_data = ''xab'', base_mask = None, col_size = 3, col_offset = 0\<rparr>)\<rparr>"

section \<open>Theorems\<close>

subsection \<open>Auxiliary facts\<close>

lemma sint_sub_nowrap:
  fixes a b :: "32 word"
  assumes "0 \<le> sint a" "sint a \<le> sint b"
  shows "sint (b - a) = sint b - sint a"
proof -
  have "sint b < 2 ^ 31" using sint_lt [of b] by simp
  then have "- (2 ^ 31) \<le> sint b - sint a" "sint b - sint a < 2 ^ 31"
    using assms by linarith+
  then show ?thesis
    by (simp add: sint_word_ariths signed_take_bit_int_eq_self)
qed

lemma window_of_window:
  "take k (drop s (take l (drop d xs))) = take (min k (l - s)) (drop (s + d) xs)"
  by (simp add: drop_take add.commute)

lemma children_slow_path:
  assumes v: "valid_string_column c"
    and bc: "base_children c = Some (bo, bch)"
    and slow: "\<not> (sc_offset c = 0 \<and> col_size bo = sc_size c + 1)"
  shows "children c = Inr (Some (shifted_offsets c (base_data bo),
                                  chars_window c (base_data bo) (base_data bch)))"
proof -
  let ?B = "base_data bo"
  define n where "n = nat (sc_size c)"
  define off where "off = nat (sc_offset c)"
  from v bc have sz: "0 \<le> sc_size c" "0 \<le> sc_offset c"
    and win: "sc_offset c + sc_size c + 1 \<le> col_size bo"
    and uns: "unsliced bo" "unsliced bch"
    by (simp_all add: valid_string_column_def)
  from uns have nomask: "base_mask bo = None" "base_mask bch = None"
    by (simp_all add: unsliced_def)
  from uns have len: "col_size bo = int (length ?B)"
    by (simp add: unsliced_def)
  from win len sz have bound: "off + n + 1 \<le> length ?B"
    by (simp add: off_def n_def)
  have nat1: "nat (sc_size c + 1) = n + 1"
    using sz by (simp add: n_def nat_add_distrib)
  let ?oc = "build_column ?B (base_mask bo) (sc_size c + 1) (sc_offset c)"
  have view: "data_view ?oc = take (n + 1) (drop off ?B)"
    by (simp add: data_view_def build_column_def nat1 off_def)
  have lview: "length (data_view ?oc) = n + 1"
    using bound by (simp add: view)
  have g0: "getitem ?oc 0 = Inr (?B ! off)"
    using sz bound lview by (simp add: getitem_def view) (simp add: build_column_def)
  let ?sh = "binary_operator_sub ?oc (?B ! off)"
  have sh: "?sh = shifted_offsets c ?B"
    by (simp add: binary_operator_sub_def view shifted_offsets_def off_def n_def)
      (simp add: build_column_def nomask)
  have shview: "data_view (shifted_offsets c ?B)
      = map (\<lambda>x. x - ?B ! off) (take (n + 1) (drop off ?B))"
    using bound by (simp add: shifted_offsets_def data_view_def nat1 off_def n_def)
  have gn: "getitem (shifted_offsets c ?B) (sc_size c) = Inr (?B ! (off + n) - ?B ! off)"
    using sz bound by (simp add: getitem_def shview) (simp add: shifted_offsets_def n_def)
  have cw: "build_column (base_data bch) (base_mask bch) (sint (?B ! (off + n) - ?B ! off)) (sint (?B ! off))
      = chars_window c ?B (base_data bch)"
    by (simp add: build_column_def chars_window_def off_def n_def nomask)
  show ?thesis
    by (simp add: children_def bc if_not_P [OF slow] Let_def g0 sh gn cw)
qed


lemma unsliced_view: "unsliced col \<Longrightarrow> data_view col = base_data col"
  by (simp add: unsliced_def data_view_def)

lemma sorted_sint_nth:
  "sorted (map sint B) \<Longrightarrow> i \<le> j \<Longrightarrow> j < length B \<Longrightarrow> sint (B ! i) \<le> sint (B ! j)"
  using sorted_nth_mono [of "map sint B" i j] by simp

lemma slow_row_content:
  assumes v: "valid_string_column c"
    and bc: "base_children c = Some (bo, bch)"
    and r: "0 \<le> r" "r < sc_size c"
  shows "row_content (shifted_offsets c (base_data bo),
                      chars_window c (base_data bo) (base_data bch)) r
         = row_content (bo, bch) (sc_offset c + r)"
proof -
  let ?B = "base_data bo"
  let ?D = "base_data bch"
  define n where "n = nat (sc_size c)"
  define off where "off = nat (sc_offset c)"
  define k where "k = nat r"
  from v bc have sz: "0 \<le> sc_size c" "0 \<le> sc_offset c"
    and win: "sc_offset c + sc_size c + 1 \<le> col_size bo"
    and uns: "unsliced bo" "unsliced bch"
    and srt: "sorted (map sint ?B)"
    and rng: "list_all (\<lambda>x. 0 \<le> sint x \<and> sint x \<le> int (length ?D)) ?B"
    by (simp_all add: valid_string_column_def)
  from uns have len: "col_size bo = int (length ?B)"
    by (simp add: unsliced_def)
  from win len sz have bound: "off + n + 1 \<le> length ?B"
    by (simp add: off_def n_def)
  from r have kn: "k < n" by (simp add: k_def n_def)
  have nonneg: "0 \<le> sint (?B ! i)" if "i < length ?B" for i
    using rng that by (simp add: list_all_length)
  define d where "d = ?B ! off"
  define S where "S = sint (?B ! (off + k))"
  define E where "E = sint (?B ! (off + k + 1))"
  define L where "L = sint (?B ! (off + n))"
  define dl where "dl = sint d"
  have d0: "0 \<le> dl" unfolding dl_def d_def using nonneg bound by simp
  have dS: "dl \<le> S" unfolding dl_def d_def S_def
    using sorted_sint_nth [OF srt, of off "off + k"] bound kn by simp
  have SE: "S \<le> E" unfolding S_def E_def
    using sorted_sint_nth [OF srt, of "off + k" "off + k + 1"] bound kn by simp
  have EL: "E \<le> L" unfolding E_def L_def
    using sorted_sint_nth [OF srt, of "off + k + 1" "off + n"] bound kn by simp
  have sS: "sint (?B ! (off + k) - d) = S - dl"
    unfolding S_def dl_def using d0 dS by (simp add: sint_sub_nowrap S_def dl_def)
  have sE: "sint (?B ! (off + k + 1) - d) = E - dl"
    unfolding E_def dl_def using d0 dS SE by (simp add: sint_sub_nowrap S_def E_def dl_def)
  have sL: "sint (?B ! (off + n) - d) = L - dl"
    unfolding L_def dl_def using d0 dS SE EL by (simp add: sint_sub_nowrap L_def dl_def)
  have nat1: "nat (sc_size c + 1) = n + 1"
    using sz by (simp add: n_def nat_add_distrib)
  have shview: "data_view (shifted_offsets c ?B)
      = map (\<lambda>x. x - d) (take (n + 1) (drop off ?B))"
    using bound by (simp add: shifted_offsets_def data_view_def nat1 off_def n_def d_def)
  have cview: "data_view (chars_window c ?B ?D) = take (nat (L - dl)) (drop (nat dl) ?D)"
    using sL by (simp add: chars_window_def data_view_def off_def n_def d_def dl_def)
  have lhs: "row_content (shifted_offsets c ?B, chars_window c ?B ?D) r
      = take (nat (E - S)) (drop (nat S) ?D)"
  proof -
    have "row_content (shifted_offsets c ?B, chars_window c ?B ?D) r
        = take (nat ((E - dl) - (S - dl)))
            (drop (nat (S - dl)) (take (nat (L - dl)) (drop (nat dl) ?D)))"
      using r kn bound sS sE
      by (simp add: row_content_def shview cview k_def [symmetric] Let_def)
    also have "\<dots> = take (min (nat (E - S)) (nat (L - dl) - nat (S - dl)))
        (drop (nat (S - dl) + nat dl) ?D)"
      by (simp add: window_of_window)
    also have "nat (S - dl) + nat dl = nat S" using d0 dS by simp
    also have "min (nat (E - S)) (nat (L - dl) - nat (S - dl)) = nat (E - S)"
      using d0 dS SE EL by simp
    finally show ?thesis .
  qed
  have idx: "nat (sc_offset c + r) = off + k"
    using sz r by (simp add: off_def k_def nat_add_distrib)
  have rhs: "row_content (bo, bch) (sc_offset c + r) = take (nat (E - S)) (drop (nat S) ?D)"
    using sz r bound kn
    by (simp add: row_content_def unsliced_view [OF uns(1)] unsliced_view [OF uns(2)]
        idx Let_def S_def E_def)
  show ?thesis by (simp add: lhs rhs)
qed


lemma slow_offsets_ends:
  assumes v: "valid_string_column c"
    and bc: "base_children c = Some (bo, bch)"
  shows "getitem (shifted_offsets c (base_data bo)) 0 = Inr 0"
    and "getitem (shifted_offsets c (base_data bo)) (sc_size c)
         = Inr (base_data bo ! (nat (sc_offset c) + nat (sc_size c))
                - base_data bo ! nat (sc_offset c))"
    and "col_size (chars_window c (base_data bo) (base_data bch))
         = int (length (data_view (chars_window c (base_data bo) (base_data bch))))"
proof -
  let ?B = "base_data bo"
  let ?D = "base_data bch"
  define n where "n = nat (sc_size c)"
  define off where "off = nat (sc_offset c)"
  from v bc have sz: "0 \<le> sc_size c" "0 \<le> sc_offset c"
    and win: "sc_offset c + sc_size c + 1 \<le> col_size bo"
    and uns: "unsliced bo" "unsliced bch"
    and srt: "sorted (map sint ?B)"
    and rng: "list_all (\<lambda>x. 0 \<le> sint x \<and> sint x \<le> int (length ?D)) ?B"
    by (simp_all add: valid_string_column_def)
  from uns have len: "col_size bo = int (length ?B)"
    by (simp add: unsliced_def)
  from win len sz have bound: "off + n + 1 \<le> length ?B"
    by (simp add: off_def n_def)
  have nat1: "nat (sc_size c + 1) = n + 1"
    using sz by (simp add: n_def nat_add_distrib)
  have shview: "data_view (shifted_offsets c ?B)
      = map (\<lambda>x. x - ?B ! off) (take (n + 1) (drop off ?B))"
    using bound by (simp add: shifted_offsets_def data_view_def nat1 off_def n_def)
  show "getitem (shifted_offsets c ?B) 0 = Inr 0"
    using sz bound by (simp add: getitem_def shview) (simp add: shifted_offsets_def)
  show "getitem (shifted_offsets c ?B) (sc_size c)
      = Inr (?B ! (nat (sc_offset c) + nat (sc_size c)) - ?B ! nat (sc_offset c))"
    using sz bound by (simp add: getitem_def shview) (simp add: shifted_offsets_def n_def off_def)
  define dl where "dl = sint (?B ! off)"
  define L where "L = sint (?B ! (off + n))"
  have d0: "0 \<le> dl" and LD: "L \<le> int (length ?D)"
    using rng bound by (simp_all add: list_all_length dl_def L_def)
  have dL: "dl \<le> L" unfolding dl_def L_def
    using sorted_sint_nth [OF srt, of off "off + n"] bound by simp
  have sL: "sint (?B ! (off + n) - ?B ! off) = L - dl"
    using d0 dL by (simp add: sint_sub_nowrap L_def dl_def)
  show "col_size (chars_window c ?B ?D) = int (length (data_view (chars_window c ?B ?D)))"
    using d0 dL LD sL
    by (simp add: chars_window_def data_view_def off_def [symmetric] n_def [symmetric]
        dl_def [symmetric])
qed


lemma children_valid:
  assumes v: "valid_string_column c"
    and bc: "base_children c = Some (bo, bch)"
  shows "children c =
      Inr (Some (if sc_offset c = 0 \<and> col_size bo = sc_size c + 1 then (bo, bch)
                 else (shifted_offsets c (base_data bo),
                       chars_window c (base_data bo) (base_data bch))))"
proof (cases "sc_offset c = 0 \<and> col_size bo = sc_size c + 1")
  case True
  then show ?thesis using bc by (simp add: children_def)
next
  case False
  show ?thesis
    by (simp only: children_slow_path [OF v bc False] if_not_P [OF False])
qed

lemma nvstrings_valid:
  assumes v: "valid_string_column c"
  shows "\<exists>rows. nvstrings c = Inr rows \<and> length rows = nat (sc_size c)"
proof (cases "base_children c")
  case None
  with v have "sc_size c = 0" by (simp add: valid_string_column_def)
  then show ?thesis by (simp add: nvstrings_def)
next
  case (Some p)
  obtain bo bch where p: "p = (bo, bch)" by (cases p)
  from children_valid [OF v Some [unfolded p]] obtain ch
    where "children c = Inr (Some ch)" by blast
  then show ?thesis by (simp add: nvstrings_def from_offsets_def Let_def)
qed

lemma no_nulls_all_valid:
  assumes "null_count c = 0" "r < nat (sc_size c)"
  shows "row_valid (sc_mask c) r"
proof -
  from assms(1) have "filter (\<lambda>r. \<not> row_valid (sc_mask c) r) [0..<nat (sc_size c)] = []"
    by (simp add: null_count_def)
  then have "\<forall>x \<in> set [0..<nat (sc_size c)]. row_valid (sc_mask c) x"
    by (simp add: filter_empty_conv)
  with assms(2) show ?thesis by simp
qed

lemma output_mask_rows:
  assumes "r < nat (sc_size c)"
  shows "row_valid (if has_nulls c then sc_mask c else None) r = row_valid (sc_mask c) r"
proof (cases "has_nulls c")
  case True
  then show ?thesis by simp
next
  case False
  then have "null_count c = 0" by (simp add: has_nulls_def)
  from no_nulls_all_valid [OF this assms] show ?thesis
    using False by (simp add: row_valid_def)
qed

lemma ex_nulls_valid: "valid_string_column ex_nulls"
  by (simp add: valid_string_column_def ex_nulls_def unsliced_def)

lemma ex_nulls_has_nulls: "has_nulls ex_nulls"
  by (simp add: has_nulls_def null_count_def ex_nulls_def row_valid_def upt_rec)




lemma split_tokens_unlimited:
  "n < 0 \<Longrightarrow> m < 0 \<Longrightarrow> split_tokens d n acc s = split_tokens d m acc s"
proof (induction d n acc s arbitrary: m rule: split_tokens.induct)
  case (1 d n acc)
  show ?case by simp
next
  case (2 d n acc c cs)
  from "2.prems" have n: "n \<noteq> 0" "m \<noteq> 0" "n - 1 < 0" "m - 1 < 0" by simp_all
  show ?case
  proof (cases "d \<noteq> [] \<and> take (length d) (c # cs) = d")
    case True
    with n have c: "n \<noteq> 0 \<and> d \<noteq> [] \<and> take (length d) (c # cs) = d" by simp
    have "split_tokens d (n - 1) [] (drop (length d) (c # cs))
        = split_tokens d (m - 1) [] (drop (length d) (c # cs))"
      by (rule "2.IH"(1) [OF c n(3) n(4)])
    then show ?thesis using True n(1,2) by simp
  next
    case False
    then have c: "\<not> (n \<noteq> 0 \<and> d \<noteq> [] \<and> take (length d) (c # cs) = d)" by simp
    have "split_tokens d n (c # acc) cs = split_tokens d m (c # acc) cs"
      by (rule "2.IH"(2) [OF c "2.prems"])
    then show ?thesis using False by auto
  qed
qed

lemma ex_aaaa_children: "children ex_aaaa = Inr (base_children ex_aaaa)"
  by (simp add: children_def ex_aaaa_def)

lemma ex_aaaa_rows: "nvstrings ex_aaaa = Inr [Some ''aaaa'']"
  unfolding nvstrings_def ex_aaaa_children
  by (simp add: ex_aaaa_def nullable_def from_offsets_def
      row_valid_def row_content_def data_view_def)

lemma ex_a_b_children: "children ex_a_b = Inr (base_children ex_a_b)"
  by (simp add: children_def ex_a_b_def)

lemma ex_a_b_rows: "nvstrings ex_a_b = Inr [Some ''a b'']"
  unfolding nvstrings_def ex_a_b_children
  by (simp add: ex_a_b_def nullable_def from_offsets_def
      row_valid_def row_content_def data_view_def)

lemma ex_aaaa_contains:
  "fst (str_contains basic_matcher (str_accessor ex_aaaa NoParent) ''^a..a$''
          True 0 NpNan True no_kwargs [])
   = Inr (NewCol \<lparr>base_data = [True], base_mask = None, col_size = 1, col_offset = 0\<rparr>)"
  by (simp add: str_contains_def str_accessor_def len_sc_def ex_aaaa_rows has_nulls_def
      null_count_def row_valid_def return_or_inplace_def no_kwargs_def
      build_column_of_buffer_def build_column_def nvs_contains_def basic_matcher_def)
    (simp add: ex_aaaa_def)

lemma nvstrings_length: "nvstrings c = Inr rows \<Longrightarrow> length rows = nat (sc_size c)"
  by (auto simp: nvstrings_def from_offsets_def Let_def split: if_splits sum.splits option.splits)

lemma ex_nulls_children: "children ex_nulls = Inr (base_children ex_nulls)"
  by (simp add: children_def ex_nulls_def)

lemma ex_nulls_rows: "nvstrings ex_nulls = Inr [Some ''hi'', None]"
  unfolding nvstrings_def ex_nulls_children
  by (simp add: ex_nulls_def nullable_def from_offsets_def
      row_valid_def row_content_def data_view_def upt_rec)

lemma null_count_mask: "0 < null_count c \<Longrightarrow> \<exists>m. sc_mask c = Some m"
  by (cases "sc_mask c") (simp_all add: null_count_def row_valid_def)

lemma null_count_nonneg: "0 \<le> null_count c"
  by (simp add: null_count_def)

lemma kept_mask_rows:
  assumes "r < nat (sc_size c)"
  shows "row_valid (if 0 < null_count c then sc_mask c else None) r = row_valid (sc_mask c) r"
proof -
  have "(0 < null_count c) = has_nulls c"
    using null_count_nonneg [of c] by (auto simp: has_nulls_def)
  then show ?thesis using output_mask_rows [OF assms] by simp
qed

lemma buffer_view: "data_view (build_column_of_buffer xs m) = xs"
  by (simp add: build_column_of_buffer_def build_column_def data_view_def)

lemma row_content_views:
  "data_view (fst a) = data_view (fst b) \<Longrightarrow> data_view (snd a) = data_view (snd b)
   \<Longrightarrow> row_content a r = row_content b r"
  by (simp add: row_content_def Let_def)

lemma children_shape:
  assumes v: "valid_string_column c"
    and bc: "base_children c = Some (bo, bch)"
  shows "\<exists>offs chars. children c = Inr (Some (offs, chars))
      \<and> length (data_view offs) = nat (sc_size c) + 1
      \<and> base_mask offs = None \<and> base_mask chars = None"
proof (cases "sc_offset c = 0 \<and> col_size bo = sc_size c + 1")
  case True
  from v bc have uns: "unsliced bo" "unsliced bch" and sz: "0 \<le> sc_size c"
    by (simp_all add: valid_string_column_def)
  have "children c = Inr (Some (bo, bch))"
    using children_valid [OF v bc] True by simp
  moreover have "length (data_view bo) = nat (sc_size c) + 1"
    using uns(1) True sz by (simp add: unsliced_view) (simp add: unsliced_def, linarith)
  ultimately show ?thesis using uns by (simp add: unsliced_def)
next
  case False
  let ?B = "base_data bo"
  from v bc have sz: "0 \<le> sc_size c" "0 \<le> sc_offset c"
    and win: "sc_offset c + sc_size c + 1 \<le> col_size bo"
    and uns: "unsliced bo"
    by (simp_all add: valid_string_column_def)
  from uns win sz have bound: "nat (sc_offset c) + nat (sc_size c) + 1 \<le> length ?B"
    by (simp add: unsliced_def)
  have ch: "children c = Inr (Some (shifted_offsets c ?B, chars_window c ?B (base_data bch)))"
    using children_valid [OF v bc] False by simp
  have "length (data_view (shifted_offsets c ?B)) = nat (sc_size c) + 1"
    using bound sz by (simp add: shifted_offsets_def data_view_def nat_add_distrib)
  then show ?thesis
    using ch by (simp add: shifted_offsets_def chars_window_def)
qed

lemma serialize_children:
  assumes ch: "children c = Inr (Some (offs, chars))"
    and m: "base_mask offs = None" "base_mask chars = None"
  shows "\<exists>hdr frames. serialize c = Inr (hdr, frames)
      \<and> deserialize hdr frames = Inr (restored c (offs, chars))"
proof (cases "0 < null_count c")
  case True
  from null_count_mask [OF True] obtain mk where mk: "sc_mask c = Some mk" by blast
  let ?frames = "[Int32Frame (data_view offs), Int8Frame (data_view chars), MaskFrame mk]"
  let ?hdr = "\<lparr>h_null_count = null_count c, h_type = StringColumnType,
      h_subheaders = [\<lparr>sh_type = NumericalColumnType, sh_dtype = Int32, sh_frame_count = 1\<rparr>,
                      \<lparr>sh_type = NumericalColumnType, sh_dtype = Int8, sh_frame_count = 1\<rparr>],
      h_frame_count = 3\<rparr>"
  have s: "serialize c = Inr (?hdr, ?frames)"
    using True by (simp add: serialize_def ch column_serialize_def m mk)
  have d: "deserialize ?hdr ?frames = Inr (restored c (offs, chars))"
    using True by (simp add: deserialize_def column_deserialize_def build_column_str_def
        restored_def mk)
  from s d show ?thesis by blast
next
  case False
  let ?frames = "[Int32Frame (data_view offs), Int8Frame (data_view chars)]"
  let ?hdr = "\<lparr>h_null_count = null_count c, h_type = StringColumnType,
      h_subheaders = [\<lparr>sh_type = NumericalColumnType, sh_dtype = Int32, sh_frame_count = 1\<rparr>,
                      \<lparr>sh_type = NumericalColumnType, sh_dtype = Int8, sh_frame_count = 1\<rparr>],
      h_frame_count = 2\<rparr>"
  have s: "serialize c = Inr (?hdr, ?frames)"
    using False by (simp add: serialize_def ch column_serialize_def m)
  have d: "deserialize ?hdr ?frames = Inr (restored c (offs, chars))"
    using False by (simp add: deserialize_def column_deserialize_def build_column_str_def
        restored_def)
  from s d show ?thesis by blast
qed

lemma restored_column:
  assumes sz: "0 \<le> sc_size c"
    and ch: "children c = Inr (Some (offs, chars))"
    and len: "length (data_view offs) = nat (sc_size c) + 1"
  shows "sc_size (restored c (offs, chars)) = sc_size c"
    and "sc_mask (restored c (offs, chars)) = (if 0 < null_count c then sc_mask c else None)"
    and "nvstrings (restored c (offs, chars)) = nvstrings c"
proof -
  let ?c' = "restored c (offs, chars)"
  let ?o' = "build_column_of_buffer (data_view offs) None :: int32 column"
  let ?d' = "build_column_of_buffer (data_view chars) None :: char column"
  have cs: "col_size ?o' = sc_size c + 1"
    using len sz by (simp add: build_column_of_buffer_def build_column_def)
  show size: "sc_size ?c' = sc_size c"
    using cs sz by (simp add: restored_def StringColumn_init_def)
  show mask: "sc_mask ?c' = (if 0 < null_count c then sc_mask c else None)"
    by (simp add: restored_def StringColumn_init_def)
  have off: "sc_offset ?c' = 0" and bc: "base_children ?c' = Some (?o', ?d')"
    by (simp_all add: restored_def StringColumn_init_def)
  have ch': "children ?c' = Inr (Some (?o', ?d'))"
    by (simp add: children_def bc off size cs)
  have rc: "row_content (?o', ?d') r = row_content (offs, chars) r" for r
    by (rule row_content_views) (simp_all add: buffer_view)
  have ptr: "(if nullable x then sc_mask x else None) = sc_mask x" for x
    by (simp add: nullable_def)
  have "from_offsets (?o', ?d') (sc_size c) (if 0 < null_count c then sc_mask c else None)
      = from_offsets (offs, chars) (sc_size c) (sc_mask c)"
    unfolding from_offsets_def
    by (rule map_cong) (simp_all add: rc kept_mask_rows)
  then show "nvstrings ?c' = nvstrings c"
    by (simp add: nvstrings_def ptr ch ch' size mask)
qed

lemma null_count_cong:
  assumes "sc_size a = sc_size b"
    and "\<forall>r < nat (sc_size b). row_valid (sc_mask a) r = row_valid (sc_mask b) r"
  shows "null_count a = null_count b"
proof -
  have "filter (\<lambda>r. \<not> row_valid (sc_mask a) r) [0..<nat (sc_size b)]
      = filter (\<lambda>r. \<not> row_valid (sc_mask b) r) [0..<nat (sc_size b)]"
    by (rule filter_cong) (simp_all add: assms(2))
  then show ?thesis by (simp add: null_count_def assms(1))
qed

lemma serialize_no_children:
  assumes bc: "base_children c = None" and sz: "sc_size c = 0"
  shows "serialize c = Inr (\<lparr>h_null_count = 0, h_type = StringColumnType,
            h_subheaders = [], h_frame_count = 0\<rparr>, [])"
    and "deserialize \<lparr>h_null_count = 0, h_type = StringColumnType,
            h_subheaders = [], h_frame_count = 0\<rparr> []
         = Inr (StringColumn_init None None 0 None)"
proof -
  have nc: "null_count c = 0" by (simp add: null_count_def sz)
  show "serialize c = Inr (\<lparr>h_null_count = 0, h_type = StringColumnType,
            h_subheaders = [], h_frame_count = 0\<rparr>, [])"
    by (simp add: serialize_def children_def bc nc)
  show "deserialize \<lparr>h_null_count = 0, h_type = StringColumnType,
            h_subheaders = [], h_frame_count = 0\<rparr> []
         = Inr (StringColumn_init None None 0 None)"
    by (simp add: deserialize_def build_column_str_def)
qed

lemma children_derivation:
  assumes v: "valid_string_column c"
    and bc: "base_children c = Some (bo, bch)"
  shows "\<exists>offs chars.
      children c = Inr (Some (offs, chars))
      \<and> (\<forall>r. 0 \<le> r \<and> r < sc_size c \<longrightarrow>
            row_content (offs, chars) r = row_content (bo, bch) (sc_offset c + r))
      \<and> (sc_offset c = 0 \<and> col_size bo = sc_size c + 1 \<longrightarrow> offs = bo \<and> chars = bch)
      \<and> (\<not> (sc_offset c = 0 \<and> col_size bo = sc_size c + 1)
           \<or> (getitem bo 0 = Inr 0
               \<and> (\<exists>w. getitem bo (sc_size c) = Inr w \<and> sint w = int (length (base_data bch))))
          \<longrightarrow> getitem offs 0 = Inr 0
              \<and> (\<exists>w. getitem offs (sc_size c) = Inr w \<and> sint w = col_size chars
                     \<and> col_size chars = int (length (data_view chars))))"
proof (cases "sc_offset c = 0 \<and> col_size bo = sc_size c + 1")
  case True
  from v bc have uns: "unsliced bch" by (simp add: valid_string_column_def)
  have ch: "children c = Inr (Some (bo, bch))"
    using True bc by (simp add: children_def)
  have len: "col_size bch = int (length (data_view bch))"
    using uns by (simp add: unsliced_view) (simp add: unsliced_def)
  have "int (length (base_data bch)) = col_size bch"
    using uns by (simp add: unsliced_def)
  with ch True len show ?thesis by auto
next
  case False
  let ?offs = "shifted_offsets c (base_data bo)"
  let ?chars = "chars_window c (base_data bo) (base_data bch)"
  have ch: "children c = Inr (Some (?offs, ?chars))"
    by (rule children_slow_path [OF v bc False])
  have rows: "\<forall>r. 0 \<le> r \<and> r < sc_size c \<longrightarrow>
      row_content (?offs, ?chars) r = row_content (bo, bch) (sc_offset c + r)"
    using slow_row_content [OF v bc] by blast
  have sz: "sint (base_data bo ! (nat (sc_offset c) + nat (sc_size c))
      - base_data bo ! nat (sc_offset c)) = col_size ?chars"
    by (simp add: chars_window_def)
  show ?thesis
    using ch rows False slow_offsets_ends [OF v bc] sz by auto
qed





subsection \<open>The size computed by the constructor\<close>

text \<open>
  C6, as stated, at a column built without children and with \<open>offset = 2\<close>: the
  constructor subtracts the offset in every branch, so the size is \<open>-2\<close>, not \<open>0\<close>.
\<close>

theorem init_size_absent_counterexample:
  "sc_size (StringColumn_init None None 2 None) \<noteq> 0"
  by (simp add: StringColumn_init_def)

text \<open>
  C6, amended. For a String Column constructed without an explicit size: when the
  children are present and the offsets child is not empty, the size is
  \<open>base_offsets.size - 1 - offset\<close>; when the children are absent, or the offsets child
  is empty, the size is \<open>0 - offset\<close>, which is \<open>0\<close> exactly when \<open>offset = 0\<close>.
\<close>

theorem init_size:
  "(col_size bo \<noteq> 0 \<longrightarrow>
      sc_size (StringColumn_init m None off (Some (bo, bc))) = col_size bo - 1 - off)
   \<and> (col_size bo = 0 \<longrightarrow>
      sc_size (StringColumn_init m None off (Some (bo, bc))) = 0 - off)
   \<and> sc_size (StringColumn_init m None off None) = 0 - off
   \<and> (sc_size (StringColumn_init m None off None) = 0 \<longleftrightarrow> off = 0)"
  by (simp add: StringColumn_init_def)

theorem init_size_witness:
  "col_size \<lparr>base_data = [0, 1, 3 :: int32], base_mask = None, col_size = 3, col_offset = 0\<rparr> \<noteq> 0
   \<and> sc_size (StringColumn_init None None 1
        (Some (\<lparr>base_data = [0, 1, 3], base_mask = None, col_size = 3, col_offset = 0\<rparr>,
               \<lparr>base_data = ''abc'', base_mask = None, col_size = 3, col_offset = 0\<rparr>))) = 1
   \<and> sc_size (StringColumn_init None None 0 None) = 0"
  using init_size [of "\<lparr>base_data = [0, 1, 3], base_mask = None, col_size = 3, col_offset = 0\<rparr>" None 1
      "\<lparr>base_data = ''abc'', base_mask = None, col_size = 3, col_offset = 0\<rparr>"]
    init_size [of "\<lparr>base_data = [], base_mask = None, col_size = 0, col_offset = 0\<rparr>" None 0
      "\<lparr>base_data = [], base_mask = None, col_size = 0, col_offset = 0\<rparr>"]
  by simp

subsection \<open>The derived children\<close>

text \<open>
  C2. For every well-formed String Column with canonical base children and a valid
  window \<open>(offset, size)\<close>, \<open>children\<close> returns a pair \<open>(offsets, data)\<close> with
  \<open>offsets[0] = 0\<close> and \<open>offsets[size]\<close> equal to the length of the data window; the
  content of derived row \<open>r\<close> is the content of base row \<open>offset + r\<close> for all \<open>r\<close> in
  \<open>[0, size)\<close>; when \<open>offset = 0\<close> and \<open>base_offsets.size = size + 1\<close> the pair is the
  base children unchanged.
\<close>

theorem children_view:
  assumes v: "valid_string_column c"
    and bc: "base_children c = Some (bo, bch)"
    and cb: "canonical_base (bo, bch)"
  shows "\<exists>offs chars.
      children c = Inr (Some (offs, chars))
      \<and> getitem offs 0 = Inr 0
      \<and> (\<exists>w. getitem offs (sc_size c) = Inr w \<and> sint w = int (length (data_view chars))
             \<and> col_size chars = int (length (data_view chars)))
      \<and> (\<forall>r. 0 \<le> r \<and> r < sc_size c \<longrightarrow>
            row_content (offs, chars) r = row_content (bo, bch) (sc_offset c + r))
      \<and> (sc_offset c = 0 \<and> col_size bo = sc_size c + 1 \<longrightarrow> offs = bo \<and> chars = bch)"
proof -
  from v bc have uns: "unsliced bo" and sz: "0 \<le> sc_size c"
    by (simp_all add: valid_string_column_def)
  have fast: "getitem bo 0 = Inr 0
      \<and> (\<exists>w. getitem bo (sc_size c) = Inr w \<and> sint w = int (length (base_data bch)))"
    if f: "sc_offset c = 0 \<and> col_size bo = sc_size c + 1"
  proof -
    from uns f have len: "int (length (base_data bo)) = sc_size c + 1"
      by (simp add: unsliced_def)
    with sz have len': "length (base_data bo) = nat (sc_size c) + 1" by linarith
    from cb have ne: "base_data bo \<noteq> []" and h: "hd (base_data bo) = 0"
      and l: "sint (last (base_data bo)) = int (length (base_data bch))"
      by (simp_all add: canonical_base_def)
    have n0: "base_data bo ! 0 = 0" using ne h by (simp add: hd_conv_nth)
    have nl: "base_data bo ! nat (sc_size c) = last (base_data bo)"
      using ne len' by (simp add: last_conv_nth)
    have g0: "getitem bo 0 = Inr 0"
      using uns f sz len' n0 by (simp add: getitem_def unsliced_view) (simp add: unsliced_def)
    have gl: "getitem bo (sc_size c) = Inr (last (base_data bo))"
      using uns f sz len' nl by (simp add: getitem_def unsliced_view) (simp add: unsliced_def)
    from g0 gl l show ?thesis by simp
  qed
  from children_derivation [OF v bc] obtain offs chars where
    ch: "children c = Inr (Some (offs, chars))"
    and rows: "\<forall>r. 0 \<le> r \<and> r < sc_size c \<longrightarrow>
      row_content (offs, chars) r = row_content (bo, bch) (sc_offset c + r)"
    and fp: "sc_offset c = 0 \<and> col_size bo = sc_size c + 1 \<longrightarrow> offs = bo \<and> chars = bch"
    and ends: "\<not> (sc_offset c = 0 \<and> col_size bo = sc_size c + 1)
           \<or> (getitem bo 0 = Inr 0
               \<and> (\<exists>w. getitem bo (sc_size c) = Inr w \<and> sint w = int (length (base_data bch))))
          \<longrightarrow> getitem offs 0 = Inr 0
              \<and> (\<exists>w. getitem offs (sc_size c) = Inr w \<and> sint w = col_size chars
                     \<and> col_size chars = int (length (data_view chars)))"
    by blast
  from fast ends have e: "getitem offs 0 = Inr 0
      \<and> (\<exists>w. getitem offs (sc_size c) = Inr w \<and> sint w = col_size chars
             \<and> col_size chars = int (length (data_view chars)))"
    by blast
  then have "getitem offs 0 = Inr 0
      \<and> (\<exists>w. getitem offs (sc_size c) = Inr w \<and> sint w = int (length (data_view chars))
             \<and> col_size chars = int (length (data_view chars)))"
    by auto
  with ch rows fp show ?thesis by blast
qed

theorem children_view_witness:
  "valid_string_column ex_slice
   \<and> base_children ex_slice
       = Some (\<lparr>base_data = [0, 1, 3], base_mask = None, col_size = 3, col_offset = 0\<rparr>,
               \<lparr>base_data = ''xab'', base_mask = None, col_size = 3, col_offset = 0\<rparr>)
   \<and> canonical_base (\<lparr>base_data = [0, 1, 3], base_mask = None, col_size = 3, col_offset = 0\<rparr>,
                     \<lparr>base_data = ''xab'', base_mask = None, col_size = 3, col_offset = 0\<rparr>)
   \<and> (\<exists>offs chars. children ex_slice = Inr (Some (offs, chars))
         \<and> row_content (offs, chars) 0 = ''ab''
         \<and> getitem offs 0 = Inr 0
         \<and> (\<exists>w. getitem offs 1 = Inr w \<and> sint w = int (length (data_view chars))))
   \<and> valid_string_column ex_whole
   \<and> (\<exists>offs chars. children ex_whole = Inr (Some (offs, chars))
         \<and> offs = \<lparr>base_data = [0, 1, 3], base_mask = None, col_size = 3, col_offset = 0\<rparr>
         \<and> row_content (offs, chars) 1 = ''ab''
         \<and> getitem offs 0 = Inr 0
         \<and> (\<exists>w. getitem offs 2 = Inr w \<and> sint w = int (length (data_view chars))))"
proof -
  let ?bo = "\<lparr>base_data = [0, 1, 3 :: int32], base_mask = None, col_size = 3, col_offset = 0\<rparr>"
  let ?bch = "\<lparr>base_data = ''xab'', base_mask = None, col_size = 3, col_offset = 0\<rparr>"
  have cb: "canonical_base (?bo, ?bch)" by (simp add: canonical_base_def)
  have v: "valid_string_column ex_slice"
    by (simp add: valid_string_column_def ex_slice_def unsliced_def)
  have b: "base_children ex_slice = Some (?bo, ?bch)"
    by (simp add: ex_slice_def)
  have v2: "valid_string_column ex_whole"
    by (simp add: valid_string_column_def ex_whole_def unsliced_def)
  have b2: "base_children ex_whole = Some (?bo, ?bch)"
    by (simp add: ex_whole_def)
  from children_view [OF v b cb] obtain offs chars where
    ch: "children ex_slice = Inr (Some (offs, chars))"
    and g0: "getitem offs 0 = Inr 0"
    and gl: "\<exists>w. getitem offs (sc_size ex_slice) = Inr w \<and> sint w = int (length (data_view chars))
             \<and> col_size chars = int (length (data_view chars))"
    and rows: "\<forall>r. 0 \<le> r \<and> r < sc_size ex_slice \<longrightarrow>
      row_content (offs, chars) r = row_content (?bo, ?bch) (sc_offset ex_slice + r)"
    by blast
  have r0: "row_content (offs, chars) 0 = ''ab''"
    using rows by (simp add: ex_slice_def row_content_def data_view_def)
  have gl': "\<exists>w. getitem offs 1 = Inr w \<and> sint w = int (length (data_view chars))"
    using gl by (auto simp: ex_slice_def)
  have first: "\<exists>offs chars. children ex_slice = Inr (Some (offs, chars))
         \<and> row_content (offs, chars) 0 = ''ab''
         \<and> getitem offs 0 = Inr 0
         \<and> (\<exists>w. getitem offs 1 = Inr w \<and> sint w = int (length (data_view chars)))"
    using ch r0 g0 gl' by blast
  from children_view [OF v2 b2 cb] obtain offs2 chars2 where
    ch2: "children ex_whole = Inr (Some (offs2, chars2))"
    and g02: "getitem offs2 0 = Inr 0"
    and gl2: "\<exists>w. getitem offs2 (sc_size ex_whole) = Inr w
             \<and> sint w = int (length (data_view chars2))
             \<and> col_size chars2 = int (length (data_view chars2))"
    and rows2: "\<forall>r. 0 \<le> r \<and> r < sc_size ex_whole \<longrightarrow>
      row_content (offs2, chars2) r = row_content (?bo, ?bch) (sc_offset ex_whole + r)"
    and fp2: "sc_offset ex_whole = 0 \<and> col_size ?bo = sc_size ex_whole + 1 \<longrightarrow>
      offs2 = ?bo \<and> chars2 = ?bch"
    by blast
  have o2: "offs2 = ?bo" using fp2 by (simp add: ex_whole_def)
  have e1: "row_content (?bo, ?bch) 1 = ''ab''"
    by (simp add: row_content_def data_view_def)
  have "row_content (offs2, chars2) 1 = row_content (?bo, ?bch) 1"
    using rows2 [rule_format, of 1] by (simp add: ex_whole_def)
  with e1 have r1: "row_content (offs2, chars2) 1 = ''ab''" by simp
  have gl2': "\<exists>w. getitem offs2 2 = Inr w \<and> sint w = int (length (data_view chars2))"
    using gl2 by (auto simp: ex_whole_def)
  have second: "\<exists>offs chars. children ex_whole = Inr (Some (offs, chars))
         \<and> offs = ?bo
         \<and> row_content (offs, chars) 1 = ''ab''
         \<and> getitem offs 0 = Inr 0
         \<and> (\<exists>w. getitem offs 2 = Inr w \<and> sint w = int (length (data_view chars)))"
    using ch2 o2 r1 g02 gl2' by blast
  from v b cb first v2 second show ?thesis by (intro conjI)
qed

subsection \<open>Null masks of \<open>len\<close> and \<open>contains\<close>\<close>

text \<open>
  C3. For a well-formed String Column, \<open>len\<close> and \<open>contains\<close> (with the default
  options) hand to the owner an output column with the row count of the input, whose
  mask is the input's own mask buffer (the same \<open>ptr\<close>, the same bits) when the input
  has nulls and no mask when it has none; every row of the window is null in the
  output exactly when it is null in the input.
\<close>

theorem len_contains_mask:
  assumes v: "valid_string_column c"
  shows "\<exists>out_len out_contains dev1 dev2.
      str_len (str_accessor c p) kw dev = (return_or_inplace p kw out_len, dev1)
      \<and> str_contains matcher (str_accessor c p) pat True 0 NpNan regex kw dev
          = (return_or_inplace p kw out_contains, dev2)
      \<and> col_size out_len = sc_size c \<and> col_size out_contains = sc_size c
      \<and> base_mask out_len = (if has_nulls c then sc_mask c else None)
      \<and> base_mask out_contains = (if has_nulls c then sc_mask c else None)
      \<and> (\<forall>r < nat (sc_size c).
            row_valid (base_mask out_len) r = row_valid (sc_mask c) r
            \<and> row_valid (base_mask out_contains) r = row_valid (sc_mask c) r)"
proof -
  from nvstrings_valid [OF v] obtain rows
    where rows: "nvstrings c = Inr rows" "length rows = nat (sc_size c)" by blast
  from v have sz: "0 \<le> sc_size c" by (simp add: valid_string_column_def)
  let ?mask = "if has_nulls c then sc_mask c else None"
  let ?ol = "build_column_of_buffer (map nvs_len rows) ?mask"
  let ?oc = "build_column_of_buffer (map (nvs_contains matcher pat regex) rows) ?mask"
  have l: "str_len (str_accessor c p) kw dev
      = (return_or_inplace p kw ?ol, dev @ [DeviceArray (sc_size c) Int32] @ [KernelLen])"
    using sz rows by (simp add: str_len_def str_accessor_def len_sc_def Let_def)
  have k: "str_contains matcher (str_accessor c p) pat True 0 NpNan regex kw dev
      = (return_or_inplace p kw ?oc,
         dev @ [DeviceArray (sc_size c) Bool] @ [KernelContains pat regex])"
    using sz rows by (simp add: str_contains_def str_accessor_def len_sc_def Let_def)
  have s: "col_size ?ol = sc_size c" "col_size ?oc = sc_size c"
    using sz rows by (simp_all add: build_column_of_buffer_def build_column_def)
  have m: "base_mask ?ol = ?mask" "base_mask ?oc = ?mask"
    by (simp_all add: build_column_of_buffer_def build_column_def)
  have r: "\<forall>r < nat (sc_size c).
      row_valid (base_mask ?ol) r = row_valid (sc_mask c) r
      \<and> row_valid (base_mask ?oc) r = row_valid (sc_mask c) r"
    using output_mask_rows [of _ c] by (simp only: m) blast
  from l k s m r show ?thesis by blast
qed

theorem len_contains_mask_witness:
  "valid_string_column ex_nulls
   \<and> (\<exists>out_len out_contains dev1 dev2.
        str_len (str_accessor ex_nulls NoParent) no_kwargs [] = (Inr (NewCol out_len), dev1)
        \<and> str_contains (\<lambda>pat regex s. pat = s) (str_accessor ex_nulls NoParent) ''hi''
             True 0 NpNan False no_kwargs [] = (Inr (NewCol out_contains), dev2)
        \<and> col_size out_len = 2 \<and> col_size out_contains = 2
        \<and> base_mask out_len = Some \<lparr>ptr = 7, bits = [True, False]\<rparr>
        \<and> base_mask out_contains = Some \<lparr>ptr = 7, bits = [True, False]\<rparr>)"
proof -
  from len_contains_mask [OF ex_nulls_valid, of NoParent no_kwargs "[]" "\<lambda>pat regex s. pat = s"
      "''hi''" False]
  obtain out_len out_contains dev1 dev2 where
    "str_len (str_accessor ex_nulls NoParent) no_kwargs []
       = (return_or_inplace NoParent no_kwargs out_len, dev1)"
    "str_contains (\<lambda>pat regex s. pat = s) (str_accessor ex_nulls NoParent) ''hi''
       True 0 NpNan False no_kwargs [] = (return_or_inplace NoParent no_kwargs out_contains, dev2)"
    "col_size out_len = sc_size ex_nulls" "col_size out_contains = sc_size ex_nulls"
    "base_mask out_len = (if has_nulls ex_nulls then sc_mask ex_nulls else None)"
    "base_mask out_contains = (if has_nulls ex_nulls then sc_mask ex_nulls else None)"
    by blast
  then show ?thesis
    using ex_nulls_valid ex_nulls_has_nulls
    by (simp add: return_or_inplace_def no_kwargs_def) (simp add: ex_nulls_def)
qed

subsection \<open>Unsupported options of \<open>contains\<close>\<close>

text \<open>
  C5. A call of \<open>contains\<close> with a non-default \<open>case\<close>, \<open>flags\<close> or \<open>na\<close> raises
  \<open>NotImplementedError\<close> and leaves the trace of device work as it was: no output
  array is allocated and no kernel runs.
\<close>

theorem contains_unsupported_option:
  assumes "case_arg \<noteq> True \<or> flags \<noteq> 0 \<or> na \<noteq> NpNan"
  shows "str_contains matcher sm pat case_arg flags na regex kw dev
         = (Inl NotImplementedError, dev)"
  using assms by (auto simp: str_contains_def)

theorem contains_unsupported_option_witness:
  "str_contains (\<lambda>pat regex s. pat = s) (str_accessor ex_nulls NoParent) ''hi''
     False 0 NpNan True no_kwargs [] = (Inl NotImplementedError, [])
   \<and> str_contains (\<lambda>pat regex s. pat = s) (str_accessor ex_nulls NoParent) ''hi''
     True 2 NpNan True no_kwargs [] = (Inl NotImplementedError, [])
   \<and> str_contains (\<lambda>pat regex s. pat = s) (str_accessor ex_nulls NoParent) ''hi''
     True 0 NaNone True no_kwargs [] = (Inl NotImplementedError, [])"
  using contains_unsupported_option [of False 0 NpNan "\<lambda>pat regex s. pat = s"
      "str_accessor ex_nulls NoParent" "''hi''" True no_kwargs "[]"]
    contains_unsupported_option [of True 2 NpNan "\<lambda>pat regex s. pat = s"
      "str_accessor ex_nulls NoParent" "''hi''" True no_kwargs "[]"]
    contains_unsupported_option [of True 0 NaNone "\<lambda>pat regex s. pat = s"
      "str_accessor ex_nulls NoParent" "''hi''" True no_kwargs "[]"]
  by simp

subsection \<open>The replacement count of \<open>replace\<close>\<close>



subsection \<open>The split count and the default delimiter of \<open>split\<close>\<close>

text \<open>
  C7. \<open>split\<close> with \<open>n = 0\<close> gives what \<open>split\<close> with \<open>n = -1\<close> gives, for every kernel:
  the kernel is called with the delimiter as passed and with \<open>-1\<close> in place of \<open>0\<close>. In
  the split kernel every negative \<open>n\<close> is unlimited, and an absent (or empty) delimiter
  splits as the single-space literal does.
\<close>

theorem split_count_and_delimiter:
  assumes rows: "nvstrings c = Inr rows"
  shows "str_split kern (str_accessor c p) pat 0 True kw
           = str_split kern (str_accessor c p) pat (- 1) True kw
     \<and> str_split kern (str_accessor c p) pat n True kw
           = return_or_inplace p
               (case kw_expand kw of None \<Rightarrow> kw\<lparr>kw_expand := Some True\<rparr> | Some b \<Rightarrow> kw)
               (kern pat (if n = 0 then - 1 else n) rows)
     \<and> (n < 0 \<longrightarrow> nvs_split pat n rows = nvs_split pat (- 1) rows)
     \<and> nvs_split None n rows = nvs_split (Some '' '') n rows
     \<and> nvs_split (Some []) n rows = nvs_split (Some '' '') n rows"
proof -
  have a: "str_split kern (str_accessor c p) pat k True kw
      = return_or_inplace p
          (case kw_expand kw of None \<Rightarrow> kw\<lparr>kw_expand := Some True\<rparr> | Some b \<Rightarrow> kw)
          (kern pat (if k = 0 then - 1 else k) rows)" for k
    using rows by (simp add: str_split_def str_accessor_def Let_def)
  have b: "n < 0 \<longrightarrow> nvs_split pat n rows = nvs_split pat (- 1) rows"
  proof
    assume "n < 0"
    then have "split_tokens d n [] = split_tokens d (- 1) []" for d
      by (intro ext split_tokens_unlimited) simp_all
    then show "nvs_split pat n rows = nvs_split pat (- 1) rows"
      by (simp add: nvs_split_def)
  qed
  have c: "nvs_split None n rows = nvs_split (Some '' '') n rows"
    "nvs_split (Some []) n rows = nvs_split (Some '' '') n rows"
    by (simp_all add: nvs_split_def split_delimiter_def)
  show ?thesis
    using a [of 0] a [of "- 1"] a [of n] b c by simp
qed

theorem split_count_and_delimiter_witness:
  "nvstrings ex_a_b = Inr [Some ''a b'']
   \<and> str_split nvs_split (str_accessor ex_a_b SeriesParent) None 0 True no_kwargs
       = Inr (ExpandDim [[Some ''a''], [Some ''b'']])
   \<and> str_split nvs_split (str_accessor ex_a_b SeriesParent) None 0 True no_kwargs
       = str_split nvs_split (str_accessor ex_a_b SeriesParent) (Some '' '') (- 1) True no_kwargs"
proof -
  have t: "nvs_split (Some '' '') (- 1) [Some ''a b''] = [[Some ''a''], [Some ''b'']]"
    by (simp add: nvs_split_def split_delimiter_def upt_rec)
  note w = split_count_and_delimiter [OF ex_a_b_rows, of nvs_split SeriesParent _ no_kwargs]
  have none: "nvs_split None (- 1) [Some ''a b''] = nvs_split (Some '' '') (- 1) [Some ''a b'']"
    using w [of None "- 1"] by (elim conjE)
  have a: "str_split nvs_split (str_accessor ex_a_b SeriesParent) None 0 True no_kwargs
      = Inr (ExpandDim (nvs_split None (- 1) [Some ''a b'']))"
    using w [of None 0, THEN conjunct2, THEN conjunct1]
    by (simp add: return_or_inplace_def no_kwargs_def)
  have b: "str_split nvs_split (str_accessor ex_a_b SeriesParent) (Some '' '') (- 1) True no_kwargs
      = Inr (ExpandDim (nvs_split (Some '' '') (- 1) [Some ''a b'']))"
    using w [of "Some '' ''" "- 1", THEN conjunct2, THEN conjunct1]
    by (simp add: return_or_inplace_def no_kwargs_def)
  show ?thesis
    using ex_a_b_rows by (simp only: a b none t)
qed

subsection \<open>\<open>binary_operator\<close>\<close>

text \<open>
  C10, as stated, at the column \<open>["aaaa"]\<close>, the operator \<open>add\<close>, the right-hand side
  \<open>["a b"]\<close> and \<open>reflect=True\<close>: the operands are swapped before the test, the result is
  \<open>["a baaaa"]\<close>, whereas \<open>cat\<close> of the column with \<open>others=rhs\<close> is \<open>["aaaaa b"]\<close>.
\<close>

theorem binary_operator_reflect_counterexample:
  "binary_operator ex_aaaa ''add'' (StringColumnArg ex_a_b) True = Inr (NewCol [Some ''a baaaa''])
   \<and> str_cat (str_accessor ex_aaaa NoParent) (ColumnOthers ex_a_b) None None no_kwargs
       = Inr (NewCol [Some ''aaaaa b''])"
  by (simp add: binary_operator_def is_string_column_def operand_str_def str_cat_def
      str_accessor_def ex_aaaa_rows ex_a_b_rows nvs_cat_def cat_row_def
      return_or_inplace_def no_kwargs_def)

text \<open>
  C10, amended. With \<open>reflect=False\<close> (the default) \<open>binary_operator\<close> succeeds only when
  the operator is \<open>add\<close> and the right-hand side is a String Column; it then returns
  \<open>self.str().cat(others=rhs)\<close>, the row-wise concatenation (null where an operand is
  null), and for every other operator or right-hand side it raises \<open>TypeError\<close>. With
  \<open>reflect=True\<close> the operands are swapped first: for \<open>add\<close> and a String Column
  right-hand side it returns \<open>rhs.str().cat(others=self)\<close>, and for every operator other
  than \<open>add\<close> it raises \<open>TypeError\<close>.
\<close>

theorem binary_operator_add_only:
  "binary_operator c binop rhs False
     = (case rhs of
          StringColumnArg r \<Rightarrow>
            if binop = ''add''
            then str_cat (str_accessor c NoParent) (ColumnOthers r) None None no_kwargs
            else Inl TypeError
        | OtherArg \<Rightarrow> Inl TypeError)
   \<and> binary_operator c ''add'' (StringColumnArg r) True
       = str_cat (str_accessor r NoParent) (ColumnOthers c) None None no_kwargs
   \<and> (binop \<noteq> ''add'' \<longrightarrow> binary_operator c binop rhs True = Inl TypeError)
   \<and> (nvstrings c = Inr xs \<and> nvstrings r = Inr ys \<and> length xs = length ys \<longrightarrow>
        str_cat (str_accessor c NoParent) (ColumnOthers r) None None no_kwargs
          = Inr (NewCol (map (\<lambda>(a, b). case a of
                                          None \<Rightarrow> None
                                        | Some x \<Rightarrow> (case b of None \<Rightarrow> None
                                                     | Some y \<Rightarrow> Some (x @ y)))
                           (zip xs ys))))"
proof -
  have a: "binary_operator c binop rhs False
     = (case rhs of
          StringColumnArg r \<Rightarrow>
            if binop = ''add''
            then str_cat (str_accessor c NoParent) (ColumnOthers r) None None no_kwargs
            else Inl TypeError
        | OtherArg \<Rightarrow> Inl TypeError)"
    by (cases rhs) (simp_all add: binary_operator_def is_string_column_def operand_str_def)
  have b: "binary_operator c ''add'' (StringColumnArg r) True
       = str_cat (str_accessor r NoParent) (ColumnOthers c) None None no_kwargs"
    by (simp add: binary_operator_def is_string_column_def operand_str_def)
  have d: "binop \<noteq> ''add'' \<longrightarrow> binary_operator c binop rhs True = Inl TypeError"
    by (simp add: binary_operator_def is_string_column_def)
  have e: "nvstrings c = Inr xs \<and> nvstrings r = Inr ys \<and> length xs = length ys \<longrightarrow>
        str_cat (str_accessor c NoParent) (ColumnOthers r) None None no_kwargs
          = Inr (NewCol (map (\<lambda>(a, b). case a of
                                          None \<Rightarrow> None
                                        | Some x \<Rightarrow> (case b of None \<Rightarrow> None
                                                     | Some y \<Rightarrow> Some (x @ y)))
                           (zip xs ys)))"
    by (auto simp: str_cat_def str_accessor_def nvs_cat_def cat_row_def
        return_or_inplace_def no_kwargs_def split: option.splits)
  from a b d e show ?thesis by (intro conjI)
qed

theorem binary_operator_add_only_witness:
  "binary_operator ex_aaaa ''add'' (StringColumnArg ex_a_b) False = Inr (NewCol [Some ''aaaaa b''])
   \<and> binary_operator ex_aaaa ''sub'' (StringColumnArg ex_a_b) False = Inl TypeError
   \<and> binary_operator ex_aaaa ''add'' OtherArg False = Inl TypeError
   \<and> binary_operator ex_aaaa ''sub'' OtherArg True = Inl TypeError"
proof -
  note t = binary_operator_add_only [of ex_aaaa _ _ ex_a_b "[Some ''aaaa'']" "[Some ''a b'']"]
  have cat: "str_cat (str_accessor ex_aaaa NoParent) (ColumnOthers ex_a_b) None None no_kwargs
      = Inr (NewCol [Some ''aaaaa b''])"
    using t [of "''add''" OtherArg, THEN conjunct2, THEN conjunct2, THEN conjunct2]
      ex_aaaa_rows ex_a_b_rows by simp
  have 1: "binary_operator ex_aaaa ''add'' (StringColumnArg ex_a_b) False
      = Inr (NewCol [Some ''aaaaa b''])"
    using t [of "''add''" "StringColumnArg ex_a_b", THEN conjunct1] cat by simp
  have 2: "binary_operator ex_aaaa ''sub'' (StringColumnArg ex_a_b) False = Inl TypeError"
    using t [of "''sub''" "StringColumnArg ex_a_b", THEN conjunct1] by simp
  have 3: "binary_operator ex_aaaa ''add'' OtherArg False = Inl TypeError"
    using t [of "''add''" OtherArg, THEN conjunct1] by simp
  have 4: "binary_operator ex_aaaa ''sub'' OtherArg True = Inl TypeError"
    using t [of "''sub''" OtherArg, THEN conjunct2, THEN conjunct2, THEN conjunct1] by simp
  from 1 2 3 4 show ?thesis by (intro conjI)
qed

subsection \<open>Membership\<close>

text \<open>
  C9 at the column \<open>["aaaa"]\<close> and the item \<open>a..a\<close>: the item is spliced into the
  regular expression \<open>^a..a$\<close> without escaping, so \<open>item in c\<close> is \<open>True\<close> although no
  row of the column is equal to the item.
\<close>

theorem contains_item_regex:
  "sc_contains basic_matcher ex_aaaa ''a..a'' = Inr True
   \<and> nvstrings ex_aaaa = Inr [Some ''aaaa'']
   \<and> Some ''a..a'' \<notin> set [Some ''aaaa'']"
  using ex_aaaa_contains
  by (simp add: sc_contains_def ex_aaaa_rows column_contains_def data_view_def row_valid_def)

subsection \<open>The inferred datetime format\<close>

text \<open>
  C8. For a column with at least one row, cast to a datetime type of the table without
  a \<open>format\<close>: the format is guessed once, from the first non-null row, and the cast
  is the one cast of the whole column with that format, every non-null row parsed with
  it. When the column has no non-null row, when the guess fails, or when a row does not
  parse, the whole cast fails.
\<close>

theorem datetime_format_inferred_once:
  assumes rows: "nvstrings c = Inr rows" and n: "0 < sc_size c" and u: "u \<noteq> Days"
  shows "as_numerical_column guess (str_cast other parse) c (Datetime64 u) NoFormat
     = (case List.map_filter (\<lambda>r. r) rows of
          [] \<Rightarrow> Inl IndexError
        | s # rest \<Rightarrow>
            (case guess s of
               None \<Rightarrow> Inl ParseFailure
             | Some f \<Rightarrow>
                 if list_all (\<lambda>r. case r of None \<Rightarrow> True
                                    | Some t \<Rightarrow> parse (Datetime64 u) f t \<noteq> None) rows
                 then Inr (map (\<lambda>r. case r of None \<Rightarrow> None
                                     | Some t \<Rightarrow> parse (Datetime64 u) f t) rows)
                 else Inl ParseFailure))"
proof -
  from nvstrings_length [OF rows] n have ne: "rows \<noteq> []" by auto
  have tab: "str_to_numeric_typecast_functions (Datetime64 u) = Some Timestamp2int"
    using u by (simp add: str_to_numeric_typecast_functions_def)
  show ?thesis
  proof (cases "List.map_filter (\<lambda>r. r) rows")
    case Nil
    then show ?thesis
      using n by (simp add: as_numerical_column_def is_datetime64_def len_sc_def
          first_notna_def rows)
  next
    case (Cons s rest)
    then have "as_numerical_column guess (str_cast other parse) c (Datetime64 u) NoFormat
        = timestamp2int parse c (Format (guess s)) (Datetime64 u)"
      using n by (simp add: as_numerical_column_def is_datetime64_def len_sc_def
          first_notna_def rows tab str_cast_def)
    then show ?thesis
      using ne Cons by (simp add: timestamp2int_def rows split: option.splits)
  qed
qed

theorem datetime_format_inferred_once_witness:
  "nvstrings ex_nulls = Inr [Some ''hi'', None] \<and> 0 < sc_size ex_nulls \<and> Seconds \<noteq> Days
   \<and> as_numerical_column (\<lambda>s. Some (''%'' @ s))
        (str_cast (\<lambda>f c d. Inl TypeError) (\<lambda>d f t. Some (int (length f + length t))))
        ex_nulls (Datetime64 Seconds) NoFormat = Inr [Some 5, None]
   \<and> as_numerical_column (\<lambda>s. None)
        (str_cast (\<lambda>f c d. Inl TypeError) (\<lambda>d f t. Some (int (length f + length t))))
        ex_nulls (Datetime64 Seconds) NoFormat = Inl ParseFailure"
proof -
  have n: "0 < sc_size ex_nulls" by (simp add: ex_nulls_def)
  have u: "Seconds \<noteq> Days" by simp
  note t = datetime_format_inferred_once [OF ex_nulls_rows n u,
      of _ "\<lambda>f c d. Inl TypeError" "\<lambda>d f t. Some (int (length f + length t))"]
  have a: "as_numerical_column (\<lambda>s. Some (''%'' @ s))
        (str_cast (\<lambda>f c d. Inl TypeError) (\<lambda>d f t. Some (int (length f + length t))))
        ex_nulls (Datetime64 Seconds) NoFormat = Inr [Some 5, None]"
    using t [of "\<lambda>s. Some (''%'' @ s)"] by (simp add: List.map_filter_simps)
  have b: "as_numerical_column (\<lambda>s. None)
        (str_cast (\<lambda>f c d. Inl TypeError) (\<lambda>d f t. Some (int (length f + length t))))
        ex_nulls (Datetime64 Seconds) NoFormat = Inl ParseFailure"
    using t [of "\<lambda>s. None"] by (simp add: List.map_filter_simps)
  from ex_nulls_rows n u a b show ?thesis by (intro conjI)
qed

subsection \<open>Serialization round trip\<close>

text \<open>
  C1. For every well-formed String Column \<open>c\<close>, \<open>serialize\<close> returns a header and frames
  from which \<open>deserialize\<close> builds a column with the row count of \<open>c\<close>, the null count
  of \<open>c\<close>, the validity of \<open>c\<close> at every row (and the mask buffer of \<open>c\<close> itself when
  \<open>c\<close> has nulls), and the rows of \<open>c\<close>, null or byte for byte. Columns without rows
  and columns whose rows are all null are well-formed columns.
\<close>

theorem serialize_round_trip:
  assumes v: "valid_string_column c"
  shows "\<exists>hdr frames c'.
      serialize c = Inr (hdr, frames) \<and> deserialize hdr frames = Inr c'
      \<and> sc_size c' = sc_size c \<and> null_count c' = null_count c
      \<and> (\<forall>r < nat (sc_size c). row_valid (sc_mask c') r = row_valid (sc_mask c) r)
      \<and> (0 < null_count c \<longrightarrow> sc_mask c' = sc_mask c)
      \<and> nvstrings c' = nvstrings c
      \<and> (\<exists>rows. nvstrings c = Inr rows \<and> length rows = nat (sc_size c))"
proof (cases "base_children c")
  case None
  with v have sz: "sc_size c = 0" by (simp add: valid_string_column_def)
  let ?c' = "StringColumn_init None None 0 None"
  have nc: "null_count c = 0" by (simp add: null_count_def sz)
  have s': "sc_size ?c' = 0" by (simp add: StringColumn_init_def)
  have "null_count ?c' = 0" by (simp add: null_count_def s')
  moreover have "nvstrings ?c' = nvstrings c" by (simp add: nvstrings_def sz s')
  moreover have "nvstrings c = Inr []" by (simp add: nvstrings_def sz)
  ultimately show ?thesis
    using serialize_no_children [OF None sz] sz nc s' by auto
next
  case (Some p)
  obtain bo bch where p: "p = (bo, bch)" by (cases p)
  from v have sz: "0 \<le> sc_size c" by (simp add: valid_string_column_def)
  from children_shape [OF v Some [unfolded p]] obtain offs chars where
    ch: "children c = Inr (Some (offs, chars))"
    and len: "length (data_view offs) = nat (sc_size c) + 1"
    and m: "base_mask offs = None" "base_mask chars = None"
    by blast
  let ?c' = "restored c (offs, chars)"
  from serialize_children [OF ch m] obtain hdr frames where
    sd: "serialize c = Inr (hdr, frames)" "deserialize hdr frames = Inr ?c'"
    by blast
  note r = restored_column [OF sz ch len]
  have rows: "\<forall>r < nat (sc_size c). row_valid (sc_mask ?c') r = row_valid (sc_mask c) r"
    by (simp add: r(2) kept_mask_rows del: split_paired_All)
  have nc: "null_count ?c' = null_count c"
    by (rule null_count_cong [OF r(1) rows])
  have mk: "0 < null_count c \<longrightarrow> sc_mask ?c' = sc_mask c"
    by (simp add: r(2))
  from nvstrings_valid [OF v] have ex: "\<exists>rows. nvstrings c = Inr rows \<and> length rows = nat (sc_size c)" .
  from sd r(1) nc rows mk r(3) ex show ?thesis by blast
qed

theorem serialize_round_trip_witness:
  "valid_string_column ex_nulls
   \<and> (\<exists>hdr frames c'.
        serialize ex_nulls = Inr (hdr, frames) \<and> deserialize hdr frames = Inr c'
        \<and> sc_size c' = 2 \<and> null_count c' = 1
        \<and> sc_mask c' = Some \<lparr>ptr = 7, bits = [True, False]\<rparr>
        \<and> nvstrings c' = Inr [Some ''hi'', None])"
proof -
  have nc: "null_count ex_nulls = 1"
    by (simp add: null_count_def ex_nulls_def row_valid_def upt_rec)
  from serialize_round_trip [OF ex_nulls_valid] obtain hdr frames c' where
    "serialize ex_nulls = Inr (hdr, frames)" "deserialize hdr frames = Inr c'"
    "sc_size c' = sc_size ex_nulls" "null_count c' = null_count ex_nulls"
    "0 < null_count ex_nulls \<longrightarrow> sc_mask c' = sc_mask ex_nulls"
    "nvstrings c' = nvstrings ex_nulls"
    by blast
  then show ?thesis
    using ex_nulls_valid nc ex_nulls_rows by (auto simp: ex_nulls_def)
qed

end
